theory Spec2Isabelle
  imports Complex_Main "HOL-Library.Word"
begin

section \<open>JavaScript numbers\<close>

text \<open>
  The engine computes with the JavaScript type \<open>number\<close>. Finite values are modelled as
  exact rationals; the three special values that arithmetic can produce (\<open>NaN\<close>,
  \<open>Infinity\<close>, \<open>-Infinity\<close>) are explicit, so that a division by zero is a branch of the
  model and not HOL's \<open>x / 0 = 0\<close>. Rounding of finite results and the sign of zero are
  not modelled.
\<close>

datatype number = Fin rat | NaN | PInf | NInf

fun num_neg :: "number \<Rightarrow> number" where
  "num_neg (Fin a) = Fin (- a)"
| "num_neg NaN = NaN"
| "num_neg PInf = NInf"
| "num_neg NInf = PInf"

fun num_add :: "number \<Rightarrow> number \<Rightarrow> number" where
  "num_add (Fin a) (Fin b) = Fin (a + b)"
| "num_add NaN _ = NaN"
| "num_add _ NaN = NaN"
| "num_add PInf NInf = NaN"
| "num_add NInf PInf = NaN"
| "num_add PInf _ = PInf"
| "num_add _ PInf = PInf"
| "num_add NInf _ = NInf"
| "num_add _ NInf = NInf"

definition num_sub :: "number \<Rightarrow> number \<Rightarrow> number" where
  "num_sub a b = num_add a (num_neg b)"

fun num_mul :: "number \<Rightarrow> number \<Rightarrow> number" where
  "num_mul (Fin a) (Fin b) = Fin (a * b)"
| "num_mul NaN _ = NaN"
| "num_mul _ NaN = NaN"
| "num_mul (Fin a) PInf = (if a = 0 then NaN else if 0 < a then PInf else NInf)"
| "num_mul (Fin a) NInf = (if a = 0 then NaN else if 0 < a then NInf else PInf)"
| "num_mul PInf (Fin b) = (if b = 0 then NaN else if 0 < b then PInf else NInf)"
| "num_mul NInf (Fin b) = (if b = 0 then NaN else if 0 < b then NInf else PInf)"
| "num_mul PInf PInf = PInf"
| "num_mul PInf NInf = NInf"
| "num_mul NInf PInf = NInf"
| "num_mul NInf NInf = PInf"

fun num_div :: "number \<Rightarrow> number \<Rightarrow> number" where
  "num_div (Fin a) (Fin b) =
     (if b = 0 then (if a = 0 then NaN else if 0 < a then PInf else NInf) else Fin (a / b))"
| "num_div NaN _ = NaN"
| "num_div _ NaN = NaN"
| "num_div (Fin a) PInf = Fin 0"
| "num_div (Fin a) NInf = Fin 0"
| "num_div PInf (Fin b) = (if 0 \<le> b then PInf else NInf)"
| "num_div NInf (Fin b) = (if 0 \<le> b then NInf else PInf)"
| "num_div PInf PInf = NaN"
| "num_div PInf NInf = NaN"
| "num_div NInf PInf = NaN"
| "num_div NInf NInf = NaN"

definition trunc :: "rat \<Rightarrow> int" where
  "trunc q = (if 0 \<le> q then \<lfloor>q\<rfloor> else \<lceil>q\<rceil>)"

text \<open>The remainder operator \<open>%\<close>: the result takes the sign of the dividend.\<close>

fun num_mod :: "number \<Rightarrow> number \<Rightarrow> number" where
  "num_mod (Fin a) (Fin b) = (if b = 0 then NaN else Fin (a - b * of_int (trunc (a / b))))"
| "num_mod (Fin a) PInf = Fin a"
| "num_mod (Fin a) NInf = Fin a"
| "num_mod _ _ = NaN"

text \<open>Comparisons: every comparison with \<open>NaN\<close> is false.\<close>

fun num_lt :: "number \<Rightarrow> number \<Rightarrow> bool" where
  "num_lt (Fin a) (Fin b) = (a < b)"
| "num_lt NaN _ = False"
| "num_lt _ NaN = False"
| "num_lt _ NInf = False"
| "num_lt PInf _ = False"
| "num_lt NInf _ = True"
| "num_lt _ PInf = True"

fun num_le :: "number \<Rightarrow> number \<Rightarrow> bool" where
  "num_le (Fin a) (Fin b) = (a \<le> b)"
| "num_le NaN _ = False"
| "num_le _ NaN = False"
| "num_le NInf _ = True"
| "num_le _ PInf = True"
| "num_le _ NInf = False"
| "num_le PInf _ = False"

fun Math_min :: "number \<Rightarrow> number \<Rightarrow> number" where
  "Math_min NaN _ = NaN"
| "Math_min _ NaN = NaN"
| "Math_min a b = (if num_lt b a then b else a)"

fun Math_max :: "number \<Rightarrow> number \<Rightarrow> number" where
  "Math_max NaN _ = NaN"
| "Math_max _ NaN = NaN"
| "Math_max a b = (if num_lt a b then b else a)"

fun Math_floor :: "number \<Rightarrow> number" where
  "Math_floor (Fin a) = Fin (of_int \<lfloor>a\<rfloor>)"
| "Math_floor a = a"

text \<open>
  The arithmetic and comparison symbols on \<open>number\<close> are these operations, so that the
  definitions below read as the source does. \<open>a > b\<close> is \<open>b < a\<close> and \<open>a \<ge> b\<close> is
  \<open>b \<le> a\<close>, both false when either side is \<open>NaN\<close>.
\<close>

instantiation number :: "{zero, one, plus, minus, uminus, times, inverse, modulo, ord, power}"
begin

definition zero_number :: number where "zero_number = Fin 0"
definition one_number :: number where "one_number = Fin 1"
definition plus_number :: "number \<Rightarrow> number \<Rightarrow> number" where "plus_number = num_add"
definition minus_number :: "number \<Rightarrow> number \<Rightarrow> number" where "minus_number = num_sub"
definition uminus_number :: "number \<Rightarrow> number" where "uminus_number = num_neg"
definition times_number :: "number \<Rightarrow> number \<Rightarrow> number" where "times_number = num_mul"
definition divide_number :: "number \<Rightarrow> number \<Rightarrow> number" where "divide_number = num_div"
definition inverse_number :: "number \<Rightarrow> number" where "inverse_number = num_div (Fin 1)"
definition modulo_number :: "number \<Rightarrow> number \<Rightarrow> number" where "modulo_number = num_mod"
definition less_number :: "number \<Rightarrow> number \<Rightarrow> bool" where "less_number = num_lt"
definition less_eq_number :: "number \<Rightarrow> number \<Rightarrow> bool" where "less_eq_number = num_le"

instance ..

end

instance number :: numeral
proof
  fix a b c :: number
  show "a + b + c = a + (b + c)"
    by (cases a; cases b; cases c) (simp_all add: plus_number_def)
qed

definition num :: "nat \<Rightarrow> number" where
  "num n = Fin (of_nat n)"

text \<open>\<open>xs[i]\<close>: \<open>undefined\<close> outside the array.\<close>

definition elem :: "'a list \<Rightarrow> int \<Rightarrow> 'a option" where
  "elem xs i = (if 0 \<le> i \<and> i < int (length xs) then Some (xs ! nat i) else None)"

section \<open>The host environment\<close>

text \<open>
  \<open>Math.random\<close>, the transcendental functions and \<open>Math.PI\<close> are parameters of the model:
  the definitions below use whatever values they return, and no theorem assumes anything
  about them unless it says so. \<open>Math_random M k\<close> is the value of the call number \<open>k\<close>
  of \<open>Math.random()\<close>; every function that draws random numbers takes the number of calls
  made so far and returns the new number.
\<close>

record Math =
  Math_random :: "nat \<Rightarrow> rat"
  Math_sin :: "number \<Rightarrow> number"
  Math_cos :: "number \<Rightarrow> number"
  Math_sqrt :: "number \<Rightarrow> number"
  Math_pow :: "number \<Rightarrow> number \<Rightarrow> number"
  Math_PI :: number

definition random :: "Math \<Rightarrow> nat \<Rightarrow> number" where
  "random M k = Fin (Math_random M k)"

section \<open>Data model\<close>

record Particle =
  p_x :: number
  p_y :: number
  p_vx :: number
  p_vy :: number
  p_size :: number
  p_hue :: number
  p_life :: number
  p_maxLife :: number
  p_angle :: number
  p_angularVelocity :: number
  p_trail :: "(number \<times> number \<times> number) list"

record Bubble =
  b_x :: number
  b_y :: number
  b_vx :: number
  b_vy :: number
  b_radius :: number
  b_hue :: number
  b_age :: number
  b_maxAge :: number
  b_popping :: bool
  b_popProgress :: number

record Seed =
  s_x :: number
  s_y :: number
  s_hue :: number

datatype Pattern =
  Fractal | Rays | Tunnel | Bubbles | Voronoi | Waves | Swarm | Mandala | Dna | Plasma

text \<open>
  The fields of the class \<open>FlowFieldRenderer\<close>. The surface dimensions are pixel counts and
  \<open>time\<close>, \<open>patternTimer\<close> and \<open>patternIndex\<close> are only ever counted up from \<open>0\<close>: they are
  natural numbers, turned into a \<open>number\<close> by \<open>num\<close> where the source computes with them.
  The canvas and its drawing context are outside the model.
\<close>

record FlowFieldRenderer =
  particles :: "Particle list"
  bubbles :: "Bubble list"
  time :: nat
  width :: nat
  height :: nat
  centerX :: number
  centerY :: number
  hueBase :: number
  currentPattern :: Pattern
  nextPattern :: Pattern
  patternTimer :: nat
  patternDuration :: number
  transitionProgress :: number
  transitionSpeed :: number
  isTransitioning :: bool
  patternIndex :: nat
  fractalZoom :: number
  fractalOffsetX :: number
  fractalOffsetY :: number
  juliaC_re :: number
  juliaC_im :: number
  voronoiSeeds :: "Seed list"

definition patternSequence :: "Pattern list" where
  "patternSequence = [Rays, Fractal, Tunnel, Bubbles, Voronoi, Waves, Swarm, Mandala, Dna, Plasma]"

text \<open>The field initialisers of the class, before the constructor body runs.\<close>

definition initial_fields :: FlowFieldRenderer where
  "initial_fields = \<lparr> particles = [], bubbles = [], time = 0, width = 0, height = 0,
     centerX = 0, centerY = 0, hueBase = 0,
     currentPattern = Rays, nextPattern = Fractal, patternTimer = 0, patternDuration = 600,
     transitionProgress = 0, transitionSpeed = 0.02, isTransitioning = False, patternIndex = 0,
     fractalZoom = 1, fractalOffsetX = - 0.5, fractalOffsetY = 0,
     juliaC_re = - 0.7, juliaC_im = 0.27, voronoiSeeds = [] \<rparr>"

section \<open>Initialization\<close>

text \<open>\<open>for (let i = 0; i < count; i++) pool.push(create())\<close>\<close>

fun push_new :: "(nat \<Rightarrow> 'a \<times> nat) \<Rightarrow> nat \<Rightarrow> nat \<Rightarrow> 'a list \<times> nat" where
  "push_new create 0 k = ([], k)"
| "push_new create (Suc n) k =
     (let (a, k1) = create k; (as, k2) = push_new create n k1 in (a # as, k2))"

definition createParticle :: "Math \<Rightarrow> FlowFieldRenderer \<Rightarrow> nat \<Rightarrow> Particle \<times> nat" where
  "createParticle M s k =
     (let angle = random M k * Math_PI M * 2;
          radius = random M (k + 1) * Math_min (num (width s)) (num (height s)) * 0.5;
          maxLife = 150 + random M (k + 2) * 250
      in (\<lparr> p_x = centerX s + Math_cos M angle * radius,
             p_y = centerY s + Math_sin M angle * radius,
             p_vx = (random M (k + 3) - 0.5) * 2,
             p_vy = (random M (k + 4) - 0.5) * 2,
             p_size = 0.8 + random M (k + 5) * 2.5,
             p_hue = random M (k + 6) * 60,
             p_life = maxLife,
             p_maxLife = maxLife,
             p_angle = random M (k + 7) * Math_PI M * 2,
             p_angularVelocity = (random M (k + 8) - 0.5) * 0.1,
             p_trail = [] \<rparr>, k + 9))"

definition initializeParticles :: "Math \<Rightarrow> FlowFieldRenderer \<times> nat \<Rightarrow> FlowFieldRenderer \<times> nat" where
  "initializeParticles M = (\<lambda>(s, k).
     (let count = min 1200 \<lfloor>rat_of_nat (width s * height s) / 800\<rfloor>;
          (ps, k1) = push_new (createParticle M s) (nat count) k
      in (s\<lparr>particles := ps\<rparr>, k1)))"

definition createBubble :: "Math \<Rightarrow> FlowFieldRenderer \<Rightarrow> nat \<Rightarrow> Bubble \<times> nat" where
  "createBubble M s k =
     (\<lparr> b_x = random M k * num (width s),
         b_y = num (height s) + random M (k + 1) * 100,
         b_vx = (random M (k + 2) - 0.5) * 0.5,
         b_vy = - (0.5 + random M (k + 3) * 1.5),
         b_radius = 10 + random M (k + 4) * 40,
         b_hue = random M (k + 5) * 360,
         b_age = 0,
         b_maxAge = 300 + random M (k + 6) * 300,
         b_popping = False,
         b_popProgress = 0 \<rparr>, k + 7)"

definition initializeBubbles :: "Math \<Rightarrow> FlowFieldRenderer \<times> nat \<Rightarrow> FlowFieldRenderer \<times> nat" where
  "initializeBubbles M = (\<lambda>(s, k).
     (let count = 30 + \<lfloor>Math_random M k * 20\<rfloor>;
          (bs, k1) = push_new (createBubble M s) (nat count) (k + 1)
      in (s\<lparr>bubbles := bs\<rparr>, k1)))"

definition createSeed :: "Math \<Rightarrow> FlowFieldRenderer \<Rightarrow> nat \<Rightarrow> Seed \<times> nat" where
  "createSeed M s k =
     (\<lparr> s_x = random M k * num (width s),
         s_y = random M (k + 1) * num (height s),
         s_hue = random M (k + 2) * 360 \<rparr>, k + 3)"

definition initializeVoronoiSeeds :: "Math \<Rightarrow> FlowFieldRenderer \<times> nat \<Rightarrow> FlowFieldRenderer \<times> nat" where
  "initializeVoronoiSeeds M = (\<lambda>(s, k).
     (let count = 15 + \<lfloor>Math_random M k * 10\<rfloor>;
          (vs, k1) = push_new (createSeed M s) (nat count) (k + 1)
      in (s\<lparr>voronoiSeeds := vs\<rparr>, k1)))"

text \<open>
  The constructor: it throws when the canvas gives no drawing context. The canvas is
  represented by its size and by whether \<open>getContext\<close> returns a context.
\<close>

datatype error = Error string

definition constructor :: "Math \<Rightarrow> nat \<Rightarrow> nat \<Rightarrow> bool \<Rightarrow> nat \<Rightarrow> error + FlowFieldRenderer \<times> nat" where
  "constructor M canvas_width canvas_height has_context k =
     (if \<not> has_context then Inl (Error ''Could not get canvas context'')
      else Inr (initializeVoronoiSeeds M (initializeBubbles M (initializeParticles M
             (initial_fields\<lparr>width := canvas_width, height := canvas_height,
                     centerX := num canvas_width / 2, centerY := num canvas_height / 2\<rparr>, k)))))"

definition resize :: "Math \<Rightarrow> nat \<Rightarrow> nat \<Rightarrow> FlowFieldRenderer \<times> nat \<Rightarrow> FlowFieldRenderer \<times> nat" where
  "resize M w h = (\<lambda>(s, k).
     initializeVoronoiSeeds M (initializeBubbles M (initializeParticles M
       (s\<lparr>width := w, height := h, centerX := num w / 2, centerY := num h / 2\<rparr>, k))))"

section \<open>Pattern transition system\<close>

text \<open>The local constant \<open>dynamicDuration\<close> of \<open>updatePatternTransition\<close>.\<close>

definition dynamicDuration :: "number \<Rightarrow> FlowFieldRenderer \<Rightarrow> number" where
  "dynamicDuration audioIntensity s = Math_max 300 (patternDuration s - audioIntensity * 200)"

definition updatePatternTransition :: "number \<Rightarrow> FlowFieldRenderer \<Rightarrow> FlowFieldRenderer" where
  "updatePatternTransition audioIntensity s0 =
     (let dynamicDuration = dynamicDuration audioIntensity s0;
          s = s0\<lparr>patternTimer := patternTimer s0 + 1\<rparr>
      in if isTransitioning s then
           (let s = s\<lparr>transitionProgress :=
                        transitionProgress s + transitionSpeed s * (1 + audioIntensity * 0.5)\<rparr>
            in if transitionProgress s \<ge> 1 then
                 s\<lparr>transitionProgress := 0, isTransitioning := False,
                   currentPattern := nextPattern s, patternTimer := 0\<rparr>
               else s)
         else if num (patternTimer s) > dynamicDuration then
           (let i = (patternIndex s + 1) mod length patternSequence
            in s\<lparr>isTransitioning := True, transitionProgress := 0, patternIndex := i,
                 nextPattern := (case elem patternSequence (int i) of Some p \<Rightarrow> p | None \<Rightarrow> Rays)\<rparr>)
         else s)"

section \<open>Audio feature extraction\<close>

text \<open>
  The frequency-magnitude array is a \<open>Uint8Array\<close>. Reading an index outside an array
  gives \<open>undefined\<close>, which is \<open>None\<close> here; the source replaces it by \<open>0\<close> with \<open>??\<close>.
  \<open>bufferLength\<close> is the length the caller passes along with the array.
\<close>

type_synonym Uint8Array = "8 word list"

definition getFrequencyBandIntensity :: "Uint8Array \<Rightarrow> nat \<Rightarrow> rat \<Rightarrow> rat \<Rightarrow> number" where
  "getFrequencyBandIntensity dataArray bufferLength startRatio endRatio =
     (let startIndex = \<lfloor>of_nat bufferLength * startRatio\<rfloor>;
          endIndex = \<lfloor>of_nat bufferLength * endRatio\<rfloor>;
          total = fold (\<lambda>i acc. acc + (case elem dataArray i of Some v \<Rightarrow> int (unat v) | None \<Rightarrow> 0))
                    [startIndex..endIndex - 1] 0
      in Math_min 1 (Fin (of_int total) / Fin (of_int (endIndex - startIndex)) / 128))"

text \<open>
  The block ``Calculate audio metrics'' of \<open>render\<close>: the overall intensity and the
  bass, mid and treble intensities, in this order.
\<close>

definition audioMetrics :: "Uint8Array \<Rightarrow> nat \<Rightarrow> number \<times> number \<times> number \<times> number" where
  "audioMetrics dataArray bufferLength =
     (let avgFrequency = Fin (of_nat (fold (\<lambda>val acc. acc + unat val) dataArray 0)) / num bufferLength;
          audioIntensity = Math_min 1 (avgFrequency / 128);
          bassIntensity = getFrequencyBandIntensity dataArray bufferLength 0 0.15;
          midIntensity = getFrequencyBandIntensity dataArray bufferLength 0.15 0.5;
          trebleIntensity = getFrequencyBandIntensity dataArray bufferLength 0.5 1.0
      in (audioIntensity, bassIntensity, midIntensity, trebleIntensity))"

section \<open>Pattern renderers\<close>

text \<open>
  A renderer paints into the drawing surface and may change fields of the engine. The
  pixels are outside the model: each renderer is represented by what it does to the
  engine state in a call that the drawing surface lets run to its end, and the fractal
  renderer in addition by the iteration counts it computes. The calls of the drawing
  surface that raise an exception, and with them the calls of \<open>render\<close> that throw, are the
  subject of the section on the exceptions of the drawing surface.
\<close>

subsection \<open>Fractal\<close>

text \<open>
  The escape-time loop \<open>while (x * x + y * y <= 4 && iter < maxIter)\<close>. It is a partial
  function: \<open>None\<close> means that the loop does not return.
\<close>

partial_function (option) julia ::
  "number \<Rightarrow> number \<Rightarrow> number \<Rightarrow> number \<Rightarrow> number \<Rightarrow> nat \<Rightarrow> nat option" where
  "julia c_re c_im maxIter x y iter =
     (if x * x + y * y \<le> 4 \<and> num iter < maxIter
      then julia c_re c_im maxIter (x * x - y * y + c_re) (2 * x * y + c_im) (iter + 1)
      else Some iter)"

text \<open>\<open>for (let p = 0; p < n; p += 2)\<close>\<close>

definition every_other :: "nat \<Rightarrow> nat list" where
  "every_other n = map (\<lambda>i. 2 * i) [0..<(n + 1) div 2]"

definition renderFractal ::
  "Math \<Rightarrow> number \<Rightarrow> number \<Rightarrow> number \<Rightarrow> FlowFieldRenderer \<Rightarrow> (FlowFieldRenderer \<times> nat list) option" where
  "renderFractal M audioIntensity bassIntensity midIntensity s0 =
     (let s = s0\<lparr>juliaC_re := - 0.7 + Math_sin M (num (time s0) * 0.001) * 0.2 + bassIntensity * 0.1\<rparr>;
          s = s\<lparr>juliaC_im := 0.27 + Math_cos M (num (time s) * 0.0015) * 0.2 + midIntensity * 0.1\<rparr>;
          s = s\<lparr>fractalZoom := fractalZoom s +
                 (0.02 + audioIntensity * 0.05) * (1 + Math_sin M (num (time s) * 0.002) * 0.5)\<rparr>;
          maxIter = 50 + Math_floor (audioIntensity * 50);
          zoom = Math_pow M 1.5 (fractalZoom s);
          iters = those (concat (map (\<lambda>py. map (\<lambda>px.
                    (let x0 = ((num px - centerX s) / (num (width s) * 0.25)) / zoom + fractalOffsetX s;
                         y0 = ((num py - centerY s) / (num (height s) * 0.25)) / zoom + fractalOffsetY s
                     in julia (juliaC_re s) (juliaC_im s) maxIter x0 y0 0))
                    (every_other (width s))) (every_other (height s))))
      in map_option (Pair s) iters)"

subsection \<open>Bubbles\<close>

text \<open>The branch ``Normal bubble physics'' of the loop body, with its pop conditions.\<close>

definition riseBubble :: "Math \<Rightarrow> FlowFieldRenderer \<Rightarrow> number \<Rightarrow> Bubble \<Rightarrow> nat \<Rightarrow> Bubble \<times> nat" where
  "riseBubble M s trebleIntensity bubble0 k =
     (let bubble = bubble0\<lparr>b_age := b_age bubble0 + 1\<rparr>;
          bubble = bubble\<lparr>b_vy := b_vy bubble - 0.01\<rparr>;
          bubble = bubble\<lparr>b_vx := b_vx bubble + (random M k - 0.5) * 0.1\<rparr>;
          bubble = bubble\<lparr>b_vx := b_vx bubble * 0.99\<rparr>;
          bubble = bubble\<lparr>b_vy := b_vy bubble * 0.99\<rparr>;
          bubble = bubble\<lparr>b_x := b_x bubble +
                     (b_vx bubble + Math_sin M (num (time s) * 0.02 + b_y bubble * 0.01) * 0.5)\<rparr>;
          bubble = bubble\<lparr>b_y := b_y bubble + b_vy bubble\<rparr>
      in if b_age bubble > b_maxAge bubble \<or> b_y bubble < (- b_radius bubble) * 2 \<or>
            b_x bubble < - b_radius bubble \<or> b_x bubble > num (width s) + b_radius bubble
         then (bubble\<lparr>b_popping := True\<rparr>, k + 1)
         else if trebleIntensity > 0.7 then
           (if random M (k + 1) > 0.95 then (bubble\<lparr>b_popping := True\<rparr>, k + 2)
            else (bubble, k + 2))
         else (bubble, k + 1))"

text \<open>\<open>this.bubbles.splice(i, 1)\<close>\<close>

definition splice1 :: "'a list \<Rightarrow> nat \<Rightarrow> 'a list" where
  "splice1 xs i = take i xs @ drop (Suc i) xs"

text \<open>
  The loop \<open>for (let i = this.bubbles.length - 1; i >= 0; i--)\<close>: the fourth argument is
  \<open>i + 1\<close>, so that \<open>Suc i\<close> runs the body at index \<open>i\<close> and \<open>0\<close> leaves the loop.
\<close>

fun updateBubbles ::
  "Math \<Rightarrow> FlowFieldRenderer \<Rightarrow> number \<Rightarrow> nat \<Rightarrow> Bubble list \<Rightarrow> nat \<Rightarrow> Bubble list \<times> nat" where
  "updateBubbles M s trebleIntensity 0 bs k = (bs, k)"
| "updateBubbles M s trebleIntensity (Suc i) bs k =
     (case elem bs (int i) of
        None \<Rightarrow> updateBubbles M s trebleIntensity i bs k
      | Some bubble0 \<Rightarrow>
          if b_popping bubble0 then
            (let bubble = bubble0\<lparr>b_popProgress := b_popProgress bubble0 + (0.1 + trebleIntensity * 0.1)\<rparr>
             in if b_popProgress bubble \<ge> 1
                then updateBubbles M s trebleIntensity i (splice1 (bs[i := bubble]) i) k
                else updateBubbles M s trebleIntensity i (bs[i := bubble]) k)
          else
            (let (bubble, k1) = riseBubble M s trebleIntensity bubble0 k
             in updateBubbles M s trebleIntensity i (bs[i := bubble]) k1))"

text \<open>The block ``Create new bubbles on bass hits''.\<close>

definition spawnBubble :: "Math \<Rightarrow> number \<Rightarrow> FlowFieldRenderer \<times> nat \<Rightarrow> FlowFieldRenderer \<times> nat" where
  "spawnBubble M bassIntensity = (\<lambda>(s, k).
     if bassIntensity > 0.5 then
       (if random M k > 0.8 then
          (let (b, k1) = createBubble M s (k + 1)
           in (s\<lparr>bubbles := bubbles s @ [b]\<rparr>, k1))
        else (s, k + 1))
     else (s, k))"

definition renderBubbles ::
  "Math \<Rightarrow> number \<Rightarrow> number \<Rightarrow> number \<Rightarrow> FlowFieldRenderer \<times> nat \<Rightarrow> FlowFieldRenderer \<times> nat" where
  "renderBubbles M audioIntensity bassIntensity trebleIntensity w =
     (let (s, k) = spawnBubble M bassIntensity w;
          (bs, k2) = updateBubbles M s trebleIntensity (length (bubbles s)) (bubbles s) k
      in (s\<lparr>bubbles := bs\<rparr>, k2))"

subsection \<open>Voronoi\<close>

definition renderVoronoi ::
  "Math \<Rightarrow> number \<Rightarrow> number \<Rightarrow> number \<Rightarrow> FlowFieldRenderer \<Rightarrow> FlowFieldRenderer" where
  "renderVoronoi M audioIntensity bassIntensity midIntensity s =
     s\<lparr>voronoiSeeds := map (\<lambda>(i, seed).
         (let angle = num (time s) * 0.001 + num i;
              radius = 50 + Math_sin M (num (time s) * 0.002 + num i) * 30
          in seed\<lparr>s_x := centerX s + Math_cos M angle * radius * (1 + bassIntensity),
                  s_y := centerY s + Math_sin M (angle * 1.3) * radius * (1 + bassIntensity),
                  s_hue := (s_hue seed + 0.5 + midIntensity) mod 360\<rparr>))
       (enumerate 0 (voronoiSeeds s))\<rparr>"

subsection \<open>Swarm\<close>

text \<open>The inner loop over \<open>j\<close>: the flocking sums for the particle at index \<open>i\<close>.\<close>

definition flocking ::
  "Math \<Rightarrow> number \<Rightarrow> Particle list \<Rightarrow> nat \<Rightarrow> Particle \<Rightarrow>
     number \<times> number \<times> number \<times> number \<times> number \<times> number \<times> nat" where
  "flocking M perceptionRadius ps i particle =
     fold (\<lambda>j (alignX, alignY, cohereX, cohereY, separateX, separateY, neighbors).
        if i = j then (alignX, alignY, cohereX, cohereY, separateX, separateY, neighbors)
        else (case elem ps (int j) of
           None \<Rightarrow> (alignX, alignY, cohereX, cohereY, separateX, separateY, neighbors)
         | Some other \<Rightarrow>
            (let dx = p_x other - p_x particle;
                 dy = p_y other - p_y particle;
                 dist = Math_sqrt M (dx * dx + dy * dy)
             in if dist < perceptionRadius \<and> dist > 0 then
                  (alignX + p_vx other, alignY + p_vy other,
                   cohereX + p_x other, cohereY + p_y other,
                   (if dist < 30 then separateX - dx / dist else separateX),
                   (if dist < 30 then separateY - dy / dist else separateY),
                   neighbors + 1)
                else (alignX, alignY, cohereX, cohereY, separateX, separateY, neighbors))))
       [0..<length ps] (0, 0, 0, 0, 0, 0, 0)"

definition updateParticle ::
  "Math \<Rightarrow> FlowFieldRenderer \<Rightarrow> number \<Rightarrow> number \<Rightarrow> number \<Rightarrow> Particle list \<Rightarrow> nat \<Rightarrow> Particle \<Rightarrow> Particle" where
  "updateParticle M s audioIntensity bassIntensity trebleIntensity ps i particle0 =
     (let perceptionRadius = 50 + audioIntensity * 50;
          (alignX, alignY, cohereX, cohereY, separateX, separateY, neighbors) =
             flocking M perceptionRadius ps i particle0;
          (alignX, alignY, cohereX, cohereY, separateX, separateY) =
             (if neighbors > 0 then
                (alignX / num neighbors, alignY / num neighbors,
                 (cohereX / num neighbors - p_x particle0) * 0.01,
                 (cohereY / num neighbors - p_y particle0) * 0.01,
                 separateX * 0.05, separateY * 0.05)
              else (alignX, alignY, cohereX, cohereY, separateX, separateY));
          dx = centerX s - p_x particle0;
          dy = centerY s - p_y particle0;
          dist = Math_sqrt M (dx * dx + dy * dy);
          centerForce = 0.001 * (1 + bassIntensity * 2);
          particle = particle0\<lparr>p_vx := p_vx particle0 +
                       (alignX * 0.02 + cohereX + separateX + (dx / dist) * centerForce)\<rparr>;
          particle = particle\<lparr>p_vy := p_vy particle +
                       (alignY * 0.02 + cohereY + separateY + (dy / dist) * centerForce)\<rparr>;
          maxSpeed = 2 + trebleIntensity * 3;
          speed = Math_sqrt M (p_vx particle * p_vx particle + p_vy particle * p_vy particle);
          particle = (if speed > maxSpeed
                      then particle\<lparr>p_vx := (p_vx particle / speed) * maxSpeed,
                                    p_vy := (p_vy particle / speed) * maxSpeed\<rparr>
                      else particle);
          particle = particle\<lparr>p_x := p_x particle + p_vx particle\<rparr>;
          particle = particle\<lparr>p_y := p_y particle + p_vy particle\<rparr>;
          particle = (if p_x particle < 0 then particle\<lparr>p_x := num (width s)\<rparr> else particle);
          particle = (if p_x particle > num (width s) then particle\<lparr>p_x := 0\<rparr> else particle);
          particle = (if p_y particle < 0 then particle\<lparr>p_y := num (height s)\<rparr> else particle);
          particle = (if p_y particle > num (height s) then particle\<lparr>p_y := 0\<rparr> else particle);
          particle = particle\<lparr>p_trail := p_trail particle @ [(p_x particle, p_y particle, 1)]\<rparr>
      in if length (p_trail particle) > 20 then particle\<lparr>p_trail := tl (p_trail particle)\<rparr>
         else particle)"

text \<open>
  The outer loop updates the pool in place, one index after the other, so a particle sees
  the new values of the particles before it.
\<close>

definition renderSwarm ::
  "Math \<Rightarrow> number \<Rightarrow> number \<Rightarrow> number \<Rightarrow> FlowFieldRenderer \<Rightarrow> FlowFieldRenderer" where
  "renderSwarm M audioIntensity bassIntensity trebleIntensity s =
     s\<lparr>particles := fold (\<lambda>i ps.
         (case elem ps (int i) of
            None \<Rightarrow> ps
          | Some particle \<Rightarrow>
              ps[i := updateParticle M s audioIntensity bassIntensity trebleIntensity ps i particle]))
       [0..<length (particles s)] (particles s)\<rparr>"

section \<open>Main render method\<close>

text \<open>
  The renderers of rays, tunnel, waves, mandala, DNA and plasma only draw: they assign to
  no field of the engine.
\<close>

definition renderPattern ::
  "Math \<Rightarrow> Pattern \<Rightarrow> number \<Rightarrow> number \<Rightarrow> number \<Rightarrow> number \<Rightarrow>
     FlowFieldRenderer \<times> nat \<Rightarrow> (FlowFieldRenderer \<times> nat) option" where
  "renderPattern M pattern audioIntensity bassIntensity midIntensity trebleIntensity = (\<lambda>(s, k).
     (case pattern of
        Fractal \<Rightarrow> map_option (\<lambda>(s', iters). (s', k))
                     (renderFractal M audioIntensity bassIntensity midIntensity s)
      | Rays \<Rightarrow> Some (s, k)
      | Tunnel \<Rightarrow> Some (s, k)
      | Bubbles \<Rightarrow> Some (renderBubbles M audioIntensity bassIntensity trebleIntensity (s, k))
      | Voronoi \<Rightarrow> Some (renderVoronoi M audioIntensity bassIntensity midIntensity s, k)
      | Waves \<Rightarrow> Some (s, k)
      | Swarm \<Rightarrow> Some (renderSwarm M audioIntensity bassIntensity trebleIntensity s, k)
      | Mandala \<Rightarrow> Some (s, k)
      | Dna \<Rightarrow> Some (s, k)
      | Plasma \<Rightarrow> Some (s, k)))"

definition render ::
  "Math \<Rightarrow> Uint8Array \<Rightarrow> nat \<Rightarrow> FlowFieldRenderer \<times> nat \<Rightarrow> (FlowFieldRenderer \<times> nat) option" where
  "render M dataArray bufferLength = (\<lambda>(s0, k).
     (let (audioIntensity, bassIntensity, midIntensity, trebleIntensity) =
             audioMetrics dataArray bufferLength;
          s = s0\<lparr>time := time s0 + 1\<rparr>;
          s = s\<lparr>hueBase := (hueBase s + 0.3 + bassIntensity * 1.5) mod 360\<rparr>;
          s = updatePatternTransition audioIntensity s
      in if isTransitioning s then
           Option.bind
             (renderPattern M (currentPattern s) audioIntensity bassIntensity midIntensity
                trebleIntensity (s, k))
             (\<lambda>(s1, k1). renderPattern M (nextPattern s1) audioIntensity bassIntensity midIntensity
                trebleIntensity (s1, k1))
         else renderPattern M (currentPattern s) audioIntensity bassIntensity midIntensity
                trebleIntensity (s, k)))"

section \<open>Exceptions of the drawing surface\<close>

text \<open>
  No statement of the render path is a \<open>throw\<close>; what can throw is a call of the canvas
  context. \<open>ctx.createImageData(sw, sh)\<close> raises \<open>IndexSizeError\<close> when one of its arguments is
  zero. It is the first statement of \<open>renderFractal\<close>, \<open>renderVoronoi\<close> and \<open>renderPlasma\<close>,
  which pass \<open>this.width\<close> and \<open>this.height\<close>; the functions \<open>render\<close> and \<open>renderPattern\<close>
  call nothing that raises before they reach the renderer (\<open>fillRect\<close>, \<open>save\<close>, \<open>restore\<close> and
  the assignments to \<open>fillStyle\<close> and \<open>globalAlpha\<close> never do).
\<close>

datatype exception = IndexSizeError | TypeError | SyntaxError

definition createImageData :: "nat \<Rightarrow> nat \<Rightarrow> exception option" where
  "createImageData sw sh = (if sw = 0 \<or> sh = 0 then Some IndexSizeError else None)"

text \<open>
  The other calls that can raise are the gradient constructors (\<open>TypeError\<close> on an argument
  that is not finite, \<open>IndexSizeError\<close> on a negative radius), \<open>addColorStop\<close> (\<open>SyntaxError\<close> on
  a colour string built from a number that is not finite), and \<open>arc\<close> and \<open>ellipse\<close>
  (\<open>IndexSizeError\<close> on a negative radius). Their arguments are computed from the
  intensities, the engine state and the host functions. They are not followed call by
  call: \<open>canvas_calls\<close> is the type of a function that tells, for a renderer entered in a
  given state with given intensities, the first exception that one of these calls raises
  in it, if any. It is a parameter, like the host functions, and every theorem holds for
  whatever it returns. \<open>renderFractal\<close> and \<open>renderPlasma\<close> make none of these calls;
  \<open>renderVoronoi\<close> makes them after \<open>createImageData\<close>.
\<close>

type_synonym canvas_calls =
  "Pattern \<Rightarrow> number \<Rightarrow> number \<Rightarrow> number \<Rightarrow> number \<Rightarrow> FlowFieldRenderer \<times> nat \<Rightarrow> exception option"

text \<open>
  \<open>renderPattern\<close> and \<open>render\<close> on a drawing surface: the result is \<open>Inl\<close> of the exception
  that leaves the call, or \<open>Inr\<close> of the state the call ends in.
\<close>

definition renderPattern_canvas ::
  "canvas_calls \<Rightarrow> Math \<Rightarrow> Pattern \<Rightarrow> number \<Rightarrow> number \<Rightarrow> number \<Rightarrow> number \<Rightarrow>
     FlowFieldRenderer \<times> nat \<Rightarrow> (exception + FlowFieldRenderer \<times> nat) option" where
  "renderPattern_canvas C M pattern audioIntensity bassIntensity midIntensity trebleIntensity = (\<lambda>(s, k).
     (let imageData = (if pattern = Fractal \<or> pattern = Voronoi \<or> pattern = Plasma
                       then createImageData (width s) (height s) else None);
          others = (if pattern = Fractal \<or> pattern = Plasma then None
                    else C pattern audioIntensity bassIntensity midIntensity trebleIntensity (s, k))
      in case imageData of
           Some e \<Rightarrow> Some (Inl e)
         | None \<Rightarrow>
             (case others of
                Some e \<Rightarrow> Some (Inl e)
              | None \<Rightarrow> map_option Inr
                  (renderPattern M pattern audioIntensity bassIntensity midIntensity
                     trebleIntensity (s, k)))))"

definition render_canvas ::
  "canvas_calls \<Rightarrow> Math \<Rightarrow> Uint8Array \<Rightarrow> nat \<Rightarrow> FlowFieldRenderer \<times> nat \<Rightarrow>
     (exception + FlowFieldRenderer \<times> nat) option" where
  "render_canvas C M dataArray bufferLength = (\<lambda>(s0, k).
     (let (audioIntensity, bassIntensity, midIntensity, trebleIntensity) =
             audioMetrics dataArray bufferLength;
          s = s0\<lparr>time := time s0 + 1\<rparr>;
          s = s\<lparr>hueBase := (hueBase s + 0.3 + bassIntensity * 1.5) mod 360\<rparr>;
          s = updatePatternTransition audioIntensity s
      in if isTransitioning s then
           (case renderPattern_canvas C M (currentPattern s) audioIntensity bassIntensity
                   midIntensity trebleIntensity (s, k) of
              None \<Rightarrow> None
            | Some (Inl e) \<Rightarrow> Some (Inl e)
            | Some (Inr (s1, k1)) \<Rightarrow>
                renderPattern_canvas C M (nextPattern s1) audioIntensity bassIntensity
                  midIntensity trebleIntensity (s1, k1))
         else renderPattern_canvas C M (currentPattern s) audioIntensity bassIntensity
                midIntensity trebleIntensity (s, k)))"

section \<open>Running the engine\<close>

text \<open>
  The caller's animation loop calls \<open>render\<close> once per frame with the array of that frame
  and its length.
\<close>

fun frames ::
  "Math \<Rightarrow> (Uint8Array \<times> nat) list \<Rightarrow> FlowFieldRenderer \<times> nat \<Rightarrow> (FlowFieldRenderer \<times> nat) option" where
  "frames M [] w = Some w"
| "frames M ((dataArray, bufferLength) # rest) w =
     Option.bind (render M dataArray bufferLength w) (frames M rest)"

text \<open>
  The number of transitions completed during a run: a frame completes a transition when
  the engine is transitioning before it and no longer after it.
\<close>

fun completed :: "Math \<Rightarrow> (Uint8Array \<times> nat) list \<Rightarrow> FlowFieldRenderer \<times> nat \<Rightarrow> nat" where
  "completed M [] w = 0"
| "completed M ((dataArray, bufferLength) # rest) w =
     (case render M dataArray bufferLength w of
        None \<Rightarrow> 0
      | Some w' \<Rightarrow> (if isTransitioning (fst w) \<and> \<not> isTransitioning (fst w') then 1 else 0)
                    + completed M rest w')"

section \<open>The bubble pass, bubble by bubble\<close>

text \<open>
  What the body of the loop in \<open>renderBubbles\<close> does to one bubble, leaving aside the
  removal: a popping bubble advances its pop progress, a rising one moves and may start
  to pop.
\<close>

definition updateBubble :: "Math \<Rightarrow> FlowFieldRenderer \<Rightarrow> number \<Rightarrow> Bubble \<Rightarrow> nat \<Rightarrow> Bubble \<times> nat" where
  "updateBubble M s trebleIntensity bubble k =
     (if b_popping bubble
      then (bubble\<lparr>b_popProgress := b_popProgress bubble + (0.1 + trebleIntensity * 0.1)\<rparr>, k)
      else riseBubble M s trebleIntensity bubble k)"

text \<open>
  Every bubble of the pool updated once, each on its own. The random numbers are drawn
  in the order of the pass, from the last bubble to the first.
\<close>

fun update_each ::
  "Math \<Rightarrow> FlowFieldRenderer \<Rightarrow> number \<Rightarrow> Bubble list \<Rightarrow> nat \<Rightarrow> Bubble list \<times> nat" where
  "update_each M s trebleIntensity [] k = ([], k)"
| "update_each M s trebleIntensity (b # bs) k =
     (let (bs', k1) = update_each M s trebleIntensity bs k;
          (b', k2) = updateBubble M s trebleIntensity b k1
      in (b' # bs', k2))"

text \<open>The pass as the claim words it: update each bubble, then delete the finished ones.\<close>

definition update_then_delete ::
  "Math \<Rightarrow> FlowFieldRenderer \<Rightarrow> number \<Rightarrow> Bubble list \<Rightarrow> nat \<Rightarrow> Bubble list \<times> nat" where
  "update_then_delete M s trebleIntensity bs k =
     (let (bs', k') = update_each M s trebleIntensity bs k
      in (filter (\<lambda>b. \<not> b_popProgress b \<ge> 1) bs', k'))"

section \<open>The scheduler state\<close>

text \<open>The fields that \<open>updatePatternTransition\<close> reads and writes.\<close>

definition schedulerState ::
  "FlowFieldRenderer \<Rightarrow> Pattern \<times> Pattern \<times> nat \<times> nat \<times> number \<times> bool \<times> number \<times> number" where
  "schedulerState s = (currentPattern s, nextPattern s, patternIndex s, patternTimer s,
     transitionProgress s, isTransitioning s, patternDuration s, transitionSpeed s)"

text \<open>
  The position of the scheduler on the cycle after \<open>c\<close> completed transitions: the active
  pattern is element \<open>c mod 10\<close> of the sequence, and the index is one ahead of it exactly
  while a transition is under way.
\<close>

definition on_cycle :: "nat \<Rightarrow> FlowFieldRenderer \<Rightarrow> bool" where
  "on_cycle c s =
     (currentPattern s = patternSequence ! (c mod 10) \<and>
      (if isTransitioning s
       then patternIndex s = (c + 1) mod 10 \<and> nextPattern s = patternSequence ! ((c + 1) mod 10)
       else patternIndex s = c mod 10))"

section \<open>Fresh pools\<close>

text \<open>The pools that \<open>resize\<close> builds depend on the new dimensions and the random source only.\<close>

definition fresh_pools :: "Math \<Rightarrow> nat \<Rightarrow> nat \<Rightarrow> nat \<Rightarrow> (Particle list \<times> Bubble list \<times> Seed list) \<times> nat" where
  "fresh_pools M w h k =
     (let d = initial_fields\<lparr>width := w, height := h, centerX := num w / 2, centerY := num h / 2\<rparr>;
          (ps, k1) = push_new (createParticle M d) (nat (min 1200 \<lfloor>rat_of_nat (w * h) / 800\<rfloor>)) k;
          (bs, k2) = push_new (createBubble M d) (nat (30 + \<lfloor>Math_random M k1 * 20\<rfloor>)) (k1 + 1);
          (vs, k3) = push_new (createSeed M d) (nat (15 + \<lfloor>Math_random M k2 * 10\<rfloor>)) (k2 + 1)
      in ((ps, bs, vs), k3))"

section \<open>An example host\<close>

text \<open>A host for the examples: every call of \<open>Math.random()\<close> returns \<open>0.5\<close>.\<close>

definition example_Math :: Math where
  "example_Math = \<lparr> Math_random = (\<lambda>k. 1 / 2), Math_sin = (\<lambda>x. 0), Math_cos = (\<lambda>x. 1),
     Math_sqrt = (\<lambda>x. x), Math_pow = (\<lambda>x y. 1), Math_PI = Fin (355 / 113) \<rparr>"


text \<open>A bubble for the examples: rising, young, inside a surface of 800 by 600.\<close>

definition example_bubble :: Bubble where
  "example_bubble = \<lparr> b_x = 100, b_y = 100, b_vx = 0, b_vy = - 1, b_radius = 10, b_hue = 0,
     b_age = 0, b_maxAge = 300, b_popping = False, b_popProgress = 0 \<rparr>"

text \<open>
  A pool for the examples: a bubble past its maximal age, a popping bubble about to
  finish, a popping bubble at the start of its pop, and a young bubble.
\<close>

definition example_pool :: "Bubble list" where
  "example_pool =
     [example_bubble\<lparr>b_age := 301\<rparr>,
      example_bubble\<lparr>b_popping := True, b_popProgress := 0.95\<rparr>,
      example_bubble\<lparr>b_popping := True, b_popProgress := 0.2\<rparr>,
      example_bubble]"

definition example_surface :: FlowFieldRenderer where
  "example_surface = initial_fields\<lparr>width := 800, height := 600\<rparr>"

section \<open>Basic facts about numbers\<close>

lemma numeral_number: "(numeral n :: number) = Fin (numeral n)"
proof (induction n)
  case One
  show ?case by (simp add: one_number_def)
next
  case (Bit0 n)
  have "(numeral (num.Bit0 n) :: number) = num_add (numeral n) (numeral n)"
    by (simp add: numeral_Bit0 plus_number_def)
  also have "\<dots> = Fin (numeral n + numeral n)"
    unfolding Bit0.IH by simp
  finally show ?case by (simp add: numeral_Bit0)
next
  case (Bit1 n)
  have "(numeral (num.Bit1 n) :: number) = num_add (num_add (numeral n) (numeral n)) (Fin 1)"
    by (simp add: numeral_Bit1 plus_number_def one_number_def)
  also have "\<dots> = Fin (numeral n + numeral n + 1)"
    unfolding Bit1.IH by simp
  finally show ?case by (simp add: numeral_Bit1)
qed

lemma power_number: "(Fin a) ^ n = Fin (a ^ n)"
  by (induction n) (simp_all add: one_number_def times_number_def)

lemmas number_ops = power_number zero_number_def one_number_def plus_number_def minus_number_def
  uminus_number_def times_number_def divide_number_def modulo_number_def less_number_def
  less_eq_number_def numeral_number num_sub_def

lemma floor_rat_numeral: "\<lfloor>(numeral a :: rat) / numeral b\<rfloor> = numeral a div numeral b"
  using floor_divide_of_int_eq [of "numeral a" "numeral b", where ?'a = rat] by simp

section \<open>The escape-time loop returns\<close>

lemma julia_stops:
  assumes "maxIter \<noteq> PInf"
  shows "\<exists>n. julia c_re c_im maxIter x y iter = Some n \<and> iter \<le> n \<and>
             (n = iter \<or> num (n - 1) < maxIter)"
proof (cases maxIter)
  case (Fin m)
  show ?thesis
  proof (induction "nat \<lceil>m\<rceil> - iter" arbitrary: x y iter rule: less_induct)
    case less
    show ?case
    proof (cases "x * x + y * y \<le> 4 \<and> num iter < maxIter")
      case True
      then have lt: "rat_of_nat iter < m"
        by (simp add: Fin num_def less_number_def)
      then have "int iter < \<lceil>m\<rceil>"
        by (metis less_ceiling_iff of_int_of_nat_eq)
      then have "nat \<lceil>m\<rceil> - (iter + 1) < nat \<lceil>m\<rceil> - iter" by linarith
      from less [OF this]
      obtain n where n: "julia c_re c_im maxIter (x * x - y * y + c_re) (2 * x * y + c_im) (iter + 1) = Some n"
        "iter + 1 \<le> n" "n = iter + 1 \<or> num (n - 1) < maxIter"
        by blast
      have "julia c_re c_im maxIter x y iter = Some n"
        using True n(1) by (subst julia.simps) simp
      moreover have "num (n - 1) < maxIter"
        using n(3) True by auto
      ultimately show ?thesis using n(2) by auto
    next
      case False
      then have "julia c_re c_im maxIter x y iter = Some iter"
        by (subst julia.simps) auto
      then show ?thesis by simp
    qed
  qed
next
  case NaN
  have "julia c_re c_im maxIter x y iter = Some iter"
    by (subst julia.simps) (simp add: NaN less_number_def num_def)
  then show ?thesis by simp
next
  case PInf
  with assms show ?thesis by simp
next
  case NInf
  have "julia c_re c_im maxIter x y iter = Some iter"
    by (subst julia.simps) (simp add: NInf less_number_def num_def)
  then show ?thesis by simp
qed

lemma those_all_Some:
  assumes "\<forall>x\<in>set xs. \<exists>n. x = Some n \<and> P n"
  shows "\<exists>ns. those xs = Some ns \<and> length ns = length xs \<and> (\<forall>n\<in>set ns. P n)"
  using assms
proof (induction xs)
  case Nil
  show ?case by simp
next
  case (Cons x xs)
  then obtain n where n: "x = Some n" "P n" by auto
  from Cons obtain ns where ns: "those xs = Some ns" "length ns = length xs" "\<forall>n\<in>set ns. P n"
    by auto
  show ?case using n ns by simp
qed

lemma maxIter_not_PInf: "a \<noteq> PInf \<Longrightarrow> 50 + Math_floor (a * 50) \<noteq> PInf"
  by (cases a) (simp_all add: number_ops)

lemma cap_bound:
  assumes "n = 0 \<or> num (n - 1) < 50 + Math_floor (a * 50)"
  shows "n = 0 \<or> num n \<le> 50 + Math_floor (a * 50)"
proof (cases "n = 0")
  case True then show ?thesis by simp
next
  case False
  with assms have lt: "num (n - 1) < 50 + Math_floor (a * 50)" by simp
  show ?thesis
  proof (cases a)
    case (Fin r)
    from lt have "rat_of_nat (n - 1) < 50 + of_int \<lfloor>r * 50\<rfloor>"
      by (simp add: Fin number_ops num_def)
    then have "rat_of_int (int (n - 1)) < rat_of_int (50 + \<lfloor>r * 50\<rfloor>)" by simp
    then have "int (n - 1) < 50 + \<lfloor>r * 50\<rfloor>" by (simp only: of_int_less_iff)
    with False have "int n \<le> 50 + \<lfloor>r * 50\<rfloor>" by linarith
    then have "rat_of_int (int n) \<le> rat_of_int (50 + \<lfloor>r * 50\<rfloor>)" by (simp only: of_int_le_iff)
    then show ?thesis by (simp add: Fin number_ops num_def)
  next
    case NaN with lt show ?thesis by (simp add: number_ops num_def)
  next
    case PInf then show ?thesis by (simp add: number_ops num_def)
  next
    case NInf with lt show ?thesis by (simp add: number_ops num_def)
  qed
qed


lemma renderFractal_Some:
  assumes "audioIntensity \<noteq> PInf"
  shows "\<exists>s' iters. renderFractal M audioIntensity bassIntensity midIntensity s = Some (s', iters) \<and>
     s' = s\<lparr>juliaC_re := juliaC_re s', juliaC_im := juliaC_im s', fractalZoom := fractalZoom s'\<rparr> \<and>
     length iters = length (every_other (width s)) * length (every_other (height s)) \<and>
     (\<forall>n\<in>set iters. n = 0 \<or> num n \<le> 50 + Math_floor (audioIntensity * 50))"
proof -
  let ?P = "\<lambda>n. n = 0 \<or> num n \<le> 50 + Math_floor (audioIntensity * 50)"
  have one: "\<exists>n. julia cr ci (50 + Math_floor (audioIntensity * 50)) x y 0 = Some n \<and> ?P n" for cr ci x y
    using julia_stops [OF maxIter_not_PInf [OF assms], of cr ci x y 0] cap_bound [of _ audioIntensity]
    by auto
  define s1 where "s1 = s\<lparr>juliaC_re := - 0.7 + Math_sin M (num (time s) * 0.001) * 0.2 + bassIntensity * 0.1,
     juliaC_im := 0.27 + Math_cos M (num (time s) * 0.0015) * 0.2 + midIntensity * 0.1,
     fractalZoom := fractalZoom s + (0.02 + audioIntensity * 0.05) * (1 + Math_sin M (num (time s) * 0.002) * 0.5)\<rparr>"
  define cells where "cells = concat (map (\<lambda>py. map (\<lambda>px.
                    (let x0 = ((num px - centerX s1) / (num (width s1) * 0.25)) / Math_pow M 1.5 (fractalZoom s1) + fractalOffsetX s1;
                         y0 = ((num py - centerY s1) / (num (height s1) * 0.25)) / Math_pow M 1.5 (fractalZoom s1) + fractalOffsetY s1
                     in julia (juliaC_re s1) (juliaC_im s1) (50 + Math_floor (audioIntensity * 50)) x0 y0 0))
                    (every_other (width s1))) (every_other (height s1)))"
  have rf: "renderFractal M audioIntensity bassIntensity midIntensity s = map_option (Pair s1) (those cells)"
    by (simp add: renderFractal_def Let_def s1_def cells_def)
  have "\<forall>c\<in>set cells. \<exists>n. c = Some n \<and> ?P n"
    using one by (auto simp: cells_def Let_def)
  from those_all_Some [where P = ?P, OF this]
  obtain ns where ns: "those cells = Some ns" "length ns = length cells" "\<forall>n\<in>set ns. ?P n"
    by blast
  have len: "length cells = length (every_other (width s)) * length (every_other (height s))"
    by (simp add: cells_def length_concat comp_def sum_list_triv s1_def)
  have "s1 = s\<lparr>juliaC_re := juliaC_re s1, juliaC_im := juliaC_im s1, fractalZoom := fractalZoom s1\<rparr>"
    by (simp add: s1_def)
  with rf ns len show ?thesis by auto
qed

section \<open>What a frame changes\<close>

lemma spawnBubble_frame: "\<exists>bs k'. spawnBubble M b (s, k) = (s\<lparr>bubbles := bs\<rparr>, k')"
proof (cases "b > 0.5 \<and> random M k > 0.8")
  case True
  then have "spawnBubble M b (s, k) =
      (s\<lparr>bubbles := bubbles s @ [fst (createBubble M s (k + 1))]\<rparr>, snd (createBubble M s (k + 1)))"
    by (simp add: spawnBubble_def case_prod_beta)
  then show ?thesis by blast
next
  case False
  then have "spawnBubble M b (s, k) = (s\<lparr>bubbles := bubbles s\<rparr>, if b > 0.5 then k + 1 else k)"
    by (auto simp: spawnBubble_def)
  then show ?thesis by blast
qed

lemma renderBubbles_frame:
  "\<exists>bs k'. renderBubbles M a b t (s, k) = (s\<lparr>bubbles := bs\<rparr>, k')"
proof -
  obtain bs k1 where sp: "spawnBubble M b (s, k) = (s\<lparr>bubbles := bs\<rparr>, k1)"
    using spawnBubble_frame by blast
  have "renderBubbles M a b t (s, k) =
      (s\<lparr>bubbles := fst (updateBubbles M (s\<lparr>bubbles := bs\<rparr>) t (length bs) bs k1)\<rparr>,
       snd (updateBubbles M (s\<lparr>bubbles := bs\<rparr>) t (length bs) bs k1))"
    by (simp add: renderBubbles_def sp case_prod_beta)
  then show ?thesis by blast
qed

lemma Math_min_1_not_PInf: "Math_min 1 x \<noteq> PInf"
  by (cases x) (simp_all add: number_ops)

lemma audioIntensity_not_PInf: "fst (audioMetrics dataArray bufferLength) \<noteq> PInf"
  by (simp add: audioMetrics_def Let_def Math_min_1_not_PInf)

lemma renderPattern_Some:
  assumes "a \<noteq> PInf"
  shows "\<exists>ps bs vs z re im k'. renderPattern M p a b m t (s, k) =
     Some (s\<lparr>particles := ps, bubbles := bs, voronoiSeeds := vs,
             fractalZoom := z, juliaC_re := re, juliaC_im := im\<rparr>, k')"
proof -
  have same: "s = s\<lparr>particles := particles s, bubbles := bubbles s, voronoiSeeds := voronoiSeeds s,
             fractalZoom := fractalZoom s, juliaC_re := juliaC_re s, juliaC_im := juliaC_im s\<rparr>"
    by simp
  show ?thesis
  proof (cases p)
    case Fractal
    from renderFractal_Some [OF assms, of M b m s]
    obtain s' iters where r: "renderFractal M a b m s = Some (s', iters)"
      and f: "s' = s\<lparr>juliaC_re := juliaC_re s', juliaC_im := juliaC_im s', fractalZoom := fractalZoom s'\<rparr>"
      by blast
    have "s' = s\<lparr>particles := particles s, bubbles := bubbles s, voronoiSeeds := voronoiSeeds s,
             fractalZoom := fractalZoom s', juliaC_re := juliaC_re s', juliaC_im := juliaC_im s'\<rparr>"
      by (subst f) simp
    moreover have "renderPattern M p a b m t (s, k) = Some (s', k)"
      by (simp add: renderPattern_def Fractal r)
    ultimately show ?thesis by metis
  next
    case Bubbles
    obtain bs k' where r: "renderBubbles M a b t (s, k) = (s\<lparr>bubbles := bs\<rparr>, k')"
      using renderBubbles_frame by blast
    have "s\<lparr>bubbles := bs\<rparr> = s\<lparr>particles := particles s, bubbles := bs, voronoiSeeds := voronoiSeeds s,
             fractalZoom := fractalZoom s, juliaC_re := juliaC_re s, juliaC_im := juliaC_im s\<rparr>"
      by simp
    moreover have "renderPattern M p a b m t (s, k) = Some (s\<lparr>bubbles := bs\<rparr>, k')"
      by (simp add: renderPattern_def Bubbles r)
    ultimately show ?thesis by metis
  next
    case Voronoi
    have "renderVoronoi M a b m s = s\<lparr>particles := particles s, bubbles := bubbles s,
             voronoiSeeds := voronoiSeeds (renderVoronoi M a b m s),
             fractalZoom := fractalZoom s, juliaC_re := juliaC_re s, juliaC_im := juliaC_im s\<rparr>"
      by (simp add: renderVoronoi_def)
    moreover have "renderPattern M p a b m t (s, k) = Some (renderVoronoi M a b m s, k)"
      by (simp add: renderPattern_def Voronoi)
    ultimately show ?thesis by metis
  next
    case Swarm
    have "renderSwarm M a b t s = s\<lparr>particles := particles (renderSwarm M a b t s), bubbles := bubbles s,
             voronoiSeeds := voronoiSeeds s,
             fractalZoom := fractalZoom s, juliaC_re := juliaC_re s, juliaC_im := juliaC_im s\<rparr>"
      by (simp add: renderSwarm_def)
    moreover have "renderPattern M p a b m t (s, k) = Some (renderSwarm M a b t s, k)"
      by (simp add: renderPattern_def Swarm)
    ultimately show ?thesis by metis
  next
    case Rays
    have "renderPattern M p a b m t (s, k) = Some (s, k)" by (simp add: renderPattern_def Rays)
    with same show ?thesis by metis
  next
    case Tunnel
    have "renderPattern M p a b m t (s, k) = Some (s, k)" by (simp add: renderPattern_def Tunnel)
    with same show ?thesis by metis
  next
    case Waves
    have "renderPattern M p a b m t (s, k) = Some (s, k)" by (simp add: renderPattern_def Waves)
    with same show ?thesis by metis
  next
    case Mandala
    have "renderPattern M p a b m t (s, k) = Some (s, k)" by (simp add: renderPattern_def Mandala)
    with same show ?thesis by metis
  next
    case Dna
    have "renderPattern M p a b m t (s, k) = Some (s, k)" by (simp add: renderPattern_def Dna)
    with same show ?thesis by metis
  next
    case Plasma
    have "renderPattern M p a b m t (s, k) = Some (s, k)" by (simp add: renderPattern_def Plasma)
    with same show ?thesis by metis
  qed
qed

lemma patternSequence_nth: "i < 10 \<Longrightarrow> elem patternSequence (int i) = Some (patternSequence ! i)"
  by (simp add: elem_def patternSequence_def)

lemma patternSequence_length: "length patternSequence = 10"
  by (simp add: patternSequence_def)

lemma updatePatternTransition_cases:
  "updatePatternTransition audioIntensity s =
     (if isTransitioning s then
        (if transitionProgress s + transitionSpeed s * (1 + audioIntensity * 0.5) \<ge> 1
         then s\<lparr>patternTimer := 0, transitionProgress := 0, isTransitioning := False,
                currentPattern := nextPattern s\<rparr>
         else s\<lparr>patternTimer := patternTimer s + 1,
                transitionProgress := transitionProgress s + transitionSpeed s * (1 + audioIntensity * 0.5)\<rparr>)
      else if num (patternTimer s + 1) > dynamicDuration audioIntensity s
      then s\<lparr>patternTimer := patternTimer s + 1, isTransitioning := True, transitionProgress := 0,
             patternIndex := (patternIndex s + 1) mod 10,
             nextPattern := patternSequence ! ((patternIndex s + 1) mod 10)\<rparr>
      else s\<lparr>patternTimer := patternTimer s + 1\<rparr>)"
proof -
  have nth: "elem patternSequence (int ((patternIndex s + 1) mod 10)) = Some (patternSequence ! ((patternIndex s + 1) mod 10))"
    by (rule patternSequence_nth) simp
  show ?thesis
    unfolding updatePatternTransition_def Let_def patternSequence_length
    using nth by (simp del: One_nat_def)
qed

text \<open>
  One call of \<open>render\<close> returns, and outside the pools and the fractal parameters the new
  state is the old one after the block ``Update globals'' and the scheduler step.
\<close>

lemma render_Some:
  "\<exists>ps bs vs z re im k'. render M dataArray bufferLength (s, k) =
     Some ((updatePatternTransition (fst (audioMetrics dataArray bufferLength))
              (s\<lparr>time := time s + 1,
                 hueBase := (hueBase s + 0.3 + fst (snd (audioMetrics dataArray bufferLength)) * 1.5) mod 360\<rparr>))
           \<lparr>particles := ps, bubbles := bs, voronoiSeeds := vs,
            fractalZoom := z, juliaC_re := re, juliaC_im := im\<rparr>, k')"
proof -
  obtain a b m t where am: "audioMetrics dataArray bufferLength = (a, b, m, t)"
    by (metis prod_cases4)
  have a: "a \<noteq> PInf" using audioIntensity_not_PInf [of dataArray bufferLength] by (simp add: am)
  define u where "u = updatePatternTransition a
     (s\<lparr>time := time s + 1, hueBase := (hueBase s + 0.3 + b * 1.5) mod 360\<rparr>)"
  have r: "render M dataArray bufferLength (s, k) =
     (if isTransitioning u then
        Option.bind (renderPattern M (currentPattern u) a b m t (u, k))
          (\<lambda>(s1, k1). renderPattern M (nextPattern s1) a b m t (s1, k1))
      else renderPattern M (currentPattern u) a b m t (u, k))"
    by (simp add: render_def am Let_def u_def)
  from renderPattern_Some [OF a, of M "currentPattern u" b m t u k]
  obtain ps bs vs z re im k1 where p1: "renderPattern M (currentPattern u) a b m t (u, k) =
     Some (u\<lparr>particles := ps, bubbles := bs, voronoiSeeds := vs,
             fractalZoom := z, juliaC_re := re, juliaC_im := im\<rparr>, k1)"
    by blast
  show ?thesis
  proof (cases "isTransitioning u")
    case False
    with r p1 show ?thesis by (simp add: am u_def) blast
  next
    case True
    define u1 where "u1 = u\<lparr>particles := ps, bubbles := bs, voronoiSeeds := vs,
             fractalZoom := z, juliaC_re := re, juliaC_im := im\<rparr>"
    from renderPattern_Some [OF a, of M "nextPattern u1" b m t u1 k1]
    obtain ps' bs' vs' z' re' im' k2 where p2: "renderPattern M (nextPattern u1) a b m t (u1, k1) =
       Some (u1\<lparr>particles := ps', bubbles := bs', voronoiSeeds := vs',
             fractalZoom := z', juliaC_re := re', juliaC_im := im'\<rparr>, k2)"
      by blast
    have "u1\<lparr>particles := ps', bubbles := bs', voronoiSeeds := vs',
             fractalZoom := z', juliaC_re := re', juliaC_im := im'\<rparr> =
          u\<lparr>particles := ps', bubbles := bs', voronoiSeeds := vs',
             fractalZoom := z', juliaC_re := re', juliaC_im := im'\<rparr>"
      by (simp add: u1_def)
    with p2 have p2': "renderPattern M (nextPattern u1) a b m t (u1, k1) =
       Some (u\<lparr>particles := ps', bubbles := bs', voronoiSeeds := vs',
             fractalZoom := z', juliaC_re := re', juliaC_im := im'\<rparr>, k2)"
      by simp
    have "render M dataArray bufferLength (s, k) =
       Some (u\<lparr>particles := ps', bubbles := bs', voronoiSeeds := vs',
             fractalZoom := z', juliaC_re := re', juliaC_im := im'\<rparr>, k2)"
      using r True p1 p2' by (simp add: u1_def)
    then show ?thesis by (simp add: am u_def) blast
  qed
qed

section \<open>Intensities of bands with samples\<close>

lemma fold_add: "fold (\<lambda>i acc. acc + f i) xs (a::int) = a + sum_list (map f xs)"
  by (induction xs arbitrary: a) simp_all

lemma fold_add_nat: "fold (\<lambda>v acc. acc + f v) xs (a::nat) = a + sum_list (map f xs)"
  by (induction xs arbitrary: a) simp_all

lemma band_value:
  "getFrequencyBandIntensity dataArray bufferLength startRatio endRatio =
     Math_min 1 (Fin (of_int (sum_list (map (\<lambda>i. case elem dataArray i of Some v \<Rightarrow> int (unat v) | None \<Rightarrow> 0)
        [\<lfloor>of_nat bufferLength * startRatio\<rfloor>..\<lfloor>of_nat bufferLength * endRatio\<rfloor> - 1])))
       / Fin (of_int (\<lfloor>of_nat bufferLength * endRatio\<rfloor> - \<lfloor>of_nat bufferLength * startRatio\<rfloor>)) / 128)"
  by (simp add: getFrequencyBandIntensity_def Let_def fold_add)

lemma Math_min_1_Fin: "Math_min 1 (Fin q) = Fin (min 1 q)"
  by (simp add: number_ops min_def)

lemma band_in_range:
  assumes "\<lfloor>of_nat bufferLength * startRatio\<rfloor> < \<lfloor>of_nat bufferLength * endRatio\<rfloor>"
  shows "\<exists>v. getFrequencyBandIntensity dataArray bufferLength startRatio endRatio = Fin v \<and> 0 \<le> v \<and> v \<le> 1"
proof -
  let ?si = "\<lfloor>of_nat bufferLength * startRatio\<rfloor>" and ?ei = "\<lfloor>of_nat bufferLength * endRatio\<rfloor>"
  let ?t = "sum_list (map (\<lambda>i. case elem dataArray i of Some v \<Rightarrow> int (unat v) | None \<Rightarrow> 0) [?si..?ei - 1])"
  have t: "0 \<le> ?t" by (rule sum_list_nonneg) (auto split: option.splits)
  have w: "rat_of_int (?ei - ?si) > 0" using assms by simp
  have "getFrequencyBandIntensity dataArray bufferLength startRatio endRatio =
      Fin (min 1 (of_int ?t / of_int (?ei - ?si) / 128))"
    unfolding band_value using w by (simp add: number_ops min_def)
  moreover have "0 \<le> rat_of_int ?t / of_int (?ei - ?si) / 128"
    using t w by simp
  ultimately show ?thesis by auto
qed

lemma band_all_255:
  assumes "0 \<le> \<lfloor>of_nat N * startRatio\<rfloor>"
    and "\<lfloor>of_nat N * startRatio\<rfloor> < \<lfloor>of_nat N * endRatio\<rfloor>"
    and "\<lfloor>of_nat N * endRatio\<rfloor> \<le> int N"
  shows "getFrequencyBandIntensity (replicate N 255) N startRatio endRatio = 1"
proof -
  let ?si = "\<lfloor>of_nat N * startRatio\<rfloor>" and ?ei = "\<lfloor>of_nat N * endRatio\<rfloor>"
  have "map (\<lambda>i. case elem (replicate N (255::8 word)) i of Some v \<Rightarrow> int (unat v) | None \<Rightarrow> 0) [?si..?ei - 1]
      = map (\<lambda>i. 255) [?si..?ei - 1]"
  proof (rule map_cong [OF refl])
    fix x assume "x \<in> set [?si..?ei - 1]"
    then have "?si \<le> x" "x < ?ei" by auto
    with assms(1,3) have "0 \<le> x" "x < int N" by linarith+
    then show "(case elem (replicate N (255::8 word)) x of Some v \<Rightarrow> int (unat v) | None \<Rightarrow> 0) = 255"
      by (simp add: elem_def)
  qed
  then have "sum_list (map (\<lambda>i. case elem (replicate N (255::8 word)) i of Some v \<Rightarrow> int (unat v) | None \<Rightarrow> 0) [?si..?ei - 1])
      = sum_list (map (\<lambda>i. 255) [?si..?ei - 1])"
    by (simp only:)
  also have "\<dots> = 255 * (?ei - ?si)"
    using assms(2) by (simp add: sum_list_triv)
  finally have "sum_list (map (\<lambda>i. case elem (replicate N (255::8 word)) i of Some v \<Rightarrow> int (unat v) | None \<Rightarrow> 0) [?si..?ei - 1])
      = 255 * (?ei - ?si)" .
  moreover have "rat_of_int (?ei - ?si) > 0" using assms by simp
  ultimately show ?thesis
    unfolding band_value by (simp add: number_ops)
qed

lemma loud_metrics:
  assumes "7 \<le> N"
  shows "audioMetrics (replicate N 255) N = (1, 1, 1, 1)"
proof -
  have N: "rat_of_nat N \<ge> 7" using assms by simp
  have f15: "1 \<le> \<lfloor>rat_of_nat N * 0.15\<rfloor>" using N by (simp add: le_floor_iff)
  have f50: "\<lfloor>rat_of_nat N * 0.15\<rfloor> < \<lfloor>rat_of_nat N * 0.5\<rfloor>"
  proof -
    have "rat_of_nat N * 0.15 + 1 \<le> rat_of_nat N * 0.5" using N by simp
    then have "\<lfloor>rat_of_nat N * 0.15 + 1\<rfloor> \<le> \<lfloor>rat_of_nat N * 0.5\<rfloor>" by (rule floor_mono)
    then show ?thesis by simp
  qed
  have f100: "\<lfloor>rat_of_nat N * 0.5\<rfloor> < \<lfloor>rat_of_nat N * 1.0\<rfloor>"
  proof -
    have "rat_of_nat N * 0.5 + 1 \<le> rat_of_nat N * 1.0" using N by simp
    then have "\<lfloor>rat_of_nat N * 0.5 + 1\<rfloor> \<le> \<lfloor>rat_of_nat N * 1.0\<rfloor>" by (rule floor_mono)
    then show ?thesis by simp
  qed
  have top: "\<lfloor>rat_of_nat N * 1.0\<rfloor> = int N" by simp
  have bass: "getFrequencyBandIntensity (replicate N 255) N 0 0.15 = 1"
    using f15 f50 top f100 by (intro band_all_255) simp_all
  have mid: "getFrequencyBandIntensity (replicate N 255) N 0.15 0.5 = 1"
    using f15 f50 top f100 by (intro band_all_255) simp_all
  have treble: "getFrequencyBandIntensity (replicate N 255) N 0.5 1.0 = 1"
    using f15 f50 top f100 by (intro band_all_255) simp_all
  have "fold (\<lambda>val acc. acc + unat val) (replicate N (255::8 word)) 0 = 255 * N"
    unfolding fold_add_nat by (simp add: sum_list_replicate)
  then have "Math_min 1 (Fin (of_nat (fold (\<lambda>val acc. acc + unat val) (replicate N (255::8 word)) 0)) / num N / 128) = 1"
    using assms by (simp add: number_ops num_def)
  with bass mid treble show ?thesis
    by (simp add: audioMetrics_def Let_def)
qed

lemma hue_step:
  assumes "0 \<le> h" "0 \<le> b"
  shows "\<exists>h'. (Fin h + 0.3 + Fin b * 1.5) mod 360 = Fin h' \<and> 0 \<le> h' \<and> h' < 360"
proof -
  define a where "a = h + 3 / 10 + b * (15 / 10)"
  have a: "0 \<le> a" using assms by (simp add: a_def)
  have eq: "(Fin h + 0.3 + Fin b * 1.5) mod 360 = Fin (a - 360 * of_int \<lfloor>a / 360\<rfloor>)"
    using a by (simp add: number_ops trunc_def a_def)
  have lo: "0 \<le> a - 360 * of_int \<lfloor>a / 360\<rfloor>" by linarith
  have hi: "a - 360 * of_int \<lfloor>a / 360\<rfloor> < 360" by linarith
  from eq lo hi show ?thesis by blast
qed

lemma updatePatternTransition_hueBase: "hueBase (updatePatternTransition a s) = hueBase s"
  by (simp add: updatePatternTransition_cases)

lemma updatePatternTransition_config:
  "patternDuration (updatePatternTransition a s) = patternDuration s"
  "transitionSpeed (updatePatternTransition a s) = transitionSpeed s"
  by (simp_all add: updatePatternTransition_cases)

lemma render_hueBase:
  "\<exists>s' k'. render M dataArray bufferLength (s, k) = Some (s', k') \<and>
     hueBase s' = (hueBase s + 0.3 + fst (snd (audioMetrics dataArray bufferLength)) * 1.5) mod 360"
proof -
  from render_Some [of M dataArray bufferLength s k]
  obtain ps bs vs z re im k' where "render M dataArray bufferLength (s, k) =
     Some ((updatePatternTransition (fst (audioMetrics dataArray bufferLength))
              (s\<lparr>time := time s + 1,
                 hueBase := (hueBase s + 0.3 + fst (snd (audioMetrics dataArray bufferLength)) * 1.5) mod 360\<rparr>))
           \<lparr>particles := ps, bubbles := bs, voronoiSeeds := vs,
            fractalZoom := z, juliaC_re := re, juliaC_im := im\<rparr>, k')"
    by blast
  then show ?thesis by (simp add: updatePatternTransition_hueBase)
qed

text \<open>The scheduler fields after a frame are those of the scheduler step.\<close>

lemma updatePatternTransition_globals:
  "currentPattern (updatePatternTransition a (s\<lparr>time := t, hueBase := h\<rparr>)) = currentPattern (updatePatternTransition a s)"
  "nextPattern (updatePatternTransition a (s\<lparr>time := t, hueBase := h\<rparr>)) = nextPattern (updatePatternTransition a s)"
  "patternIndex (updatePatternTransition a (s\<lparr>time := t, hueBase := h\<rparr>)) = patternIndex (updatePatternTransition a s)"
  "patternTimer (updatePatternTransition a (s\<lparr>time := t, hueBase := h\<rparr>)) = patternTimer (updatePatternTransition a s)"
  "transitionProgress (updatePatternTransition a (s\<lparr>time := t, hueBase := h\<rparr>)) = transitionProgress (updatePatternTransition a s)"
  "isTransitioning (updatePatternTransition a (s\<lparr>time := t, hueBase := h\<rparr>)) = isTransitioning (updatePatternTransition a s)"
  "patternDuration (updatePatternTransition a (s\<lparr>time := t, hueBase := h\<rparr>)) = patternDuration s"
  "transitionSpeed (updatePatternTransition a (s\<lparr>time := t, hueBase := h\<rparr>)) = transitionSpeed s"
  by (simp_all add: updatePatternTransition_cases dynamicDuration_def)

lemma render_scheduler:
  "\<exists>s' k'. render M dataArray bufferLength (s, k) = Some (s', k') \<and>
     currentPattern s' = currentPattern (updatePatternTransition (fst (audioMetrics dataArray bufferLength)) s) \<and>
     nextPattern s' = nextPattern (updatePatternTransition (fst (audioMetrics dataArray bufferLength)) s) \<and>
     patternIndex s' = patternIndex (updatePatternTransition (fst (audioMetrics dataArray bufferLength)) s) \<and>
     patternTimer s' = patternTimer (updatePatternTransition (fst (audioMetrics dataArray bufferLength)) s) \<and>
     transitionProgress s' = transitionProgress (updatePatternTransition (fst (audioMetrics dataArray bufferLength)) s) \<and>
     isTransitioning s' = isTransitioning (updatePatternTransition (fst (audioMetrics dataArray bufferLength)) s) \<and>
     patternDuration s' = patternDuration s \<and> transitionSpeed s' = transitionSpeed s"
proof -
  from render_Some [of M dataArray bufferLength s k]
  obtain ps bs vs z re im k' where "render M dataArray bufferLength (s, k) =
     Some ((updatePatternTransition (fst (audioMetrics dataArray bufferLength))
              (s\<lparr>time := time s + 1,
                 hueBase := (hueBase s + 0.3 + fst (snd (audioMetrics dataArray bufferLength)) * 1.5) mod 360\<rparr>))
           \<lparr>particles := ps, bubbles := bs, voronoiSeeds := vs,
            fractalZoom := z, juliaC_re := re, juliaC_im := im\<rparr>, k')"
    by blast
  then show ?thesis by (simp add: updatePatternTransition_globals)
qed

section \<open>Runs of frames\<close>

lemma initialize_frame:
  "\<exists>ps k'. initializeParticles M (s, k) = (s\<lparr>particles := ps\<rparr>, k')"
  "\<exists>bs k'. initializeBubbles M (s, k) = (s\<lparr>bubbles := bs\<rparr>, k')"
  "\<exists>vs k'. initializeVoronoiSeeds M (s, k) = (s\<lparr>voronoiSeeds := vs\<rparr>, k')"
  by (simp_all add: initializeParticles_def initializeBubbles_def initializeVoronoiSeeds_def
        case_prod_beta Let_def) blast+

lemma initialize_all:
  "\<exists>ps bs vs k'. initializeVoronoiSeeds M (initializeBubbles M (initializeParticles M (s, k))) =
      (s\<lparr>particles := ps, bubbles := bs, voronoiSeeds := vs\<rparr>, k')"
proof -
  obtain ps k1 where 1: "initializeParticles M (s, k) = (s\<lparr>particles := ps\<rparr>, k1)"
    using initialize_frame(1) by blast
  obtain bs k2 where 2: "initializeBubbles M (s\<lparr>particles := ps\<rparr>, k1) = (s\<lparr>particles := ps, bubbles := bs\<rparr>, k2)"
    using initialize_frame(2) [of M "s\<lparr>particles := ps\<rparr>" k1] by auto
  obtain vs k3 where 3: "initializeVoronoiSeeds M (s\<lparr>particles := ps, bubbles := bs\<rparr>, k2) =
      (s\<lparr>particles := ps, bubbles := bs, voronoiSeeds := vs\<rparr>, k3)"
    using initialize_frame(3) [of M "s\<lparr>particles := ps, bubbles := bs\<rparr>" k2] by auto
  show ?thesis unfolding 1 2 3 by blast
qed

lemma constructor_Inr:
  assumes "constructor M cw ch True k0 = Inr (s0, k1)"
  shows "\<exists>ps bs vs. s0 = initial_fields\<lparr>width := cw, height := ch, centerX := num cw / 2,
            centerY := num ch / 2, particles := ps, bubbles := bs, voronoiSeeds := vs\<rparr>"
proof -
  from initialize_all [of M "initial_fields\<lparr>width := cw, height := ch,
                     centerX := num cw / 2, centerY := num ch / 2\<rparr>" k0]
  obtain ps bs vs k' where "initializeVoronoiSeeds M (initializeBubbles M (initializeParticles M
             (initial_fields\<lparr>width := cw, height := ch,
                     centerX := num cw / 2, centerY := num ch / 2\<rparr>, k0))) =
      (initial_fields\<lparr>width := cw, height := ch,
                     centerX := num cw / 2, centerY := num ch / 2,
          particles := ps, bubbles := bs, voronoiSeeds := vs\<rparr>, k')"
    by auto
  with assms show ?thesis by (auto simp: constructor_def)
qed

lemma frames_hue:
  assumes "\<forall>(dataArray, bufferLength) \<in> set inputs. 7 \<le> bufferLength"
    and "hueBase s = Fin h" "0 \<le> h" "h < 360"
  shows "\<exists>s' k' h'. frames M inputs (s, k) = Some (s', k') \<and> hueBase s' = Fin h' \<and> 0 \<le> h' \<and> h' < 360"
  using assms
proof (induction inputs arbitrary: s k h)
  case Nil
  then show ?case by simp
next
  case (Cons input inputs)
  obtain dataArray bufferLength where input: "input = (dataArray, bufferLength)" by (cases input)
  with Cons.prems(1) have n: "7 \<le> bufferLength" by simp
  then have "rat_of_nat bufferLength \<ge> 7" by simp
  then have "\<lfloor>rat_of_nat bufferLength * 0\<rfloor> < \<lfloor>rat_of_nat bufferLength * 0.15\<rfloor>"
    by (simp add: less_floor_iff)
  from band_in_range [OF this, of dataArray]
  obtain b where b: "getFrequencyBandIntensity dataArray bufferLength 0 0.15 = Fin b" "0 \<le> b"
    by blast
  then have bass: "fst (snd (audioMetrics dataArray bufferLength)) = Fin b"
    by (simp add: audioMetrics_def Let_def)
  from render_hueBase [of M dataArray bufferLength s k]
  obtain s1 k1 where r: "render M dataArray bufferLength (s, k) = Some (s1, k1)"
    and h1: "hueBase s1 = (Fin h + 0.3 + Fin b * 1.5) mod 360"
    by (auto simp: bass Cons.prems(2))
  from hue_step [OF Cons.prems(3) b(2)] h1
  obtain h' where h': "hueBase s1 = Fin h'" "0 \<le> h'" "h' < 360" by auto
  from Cons.IH [OF _ h', of k1] Cons.prems(1)
  obtain s' k' h'' where "frames M inputs (s1, k1) = Some (s', k')" "hueBase s' = Fin h''" "0 \<le> h''" "h'' < 360"
    by auto
  then show ?case by (auto simp: input r)
qed

text \<open>A steady phase: while the timer stays within the dynamic duration, a frame only counts.\<close>

lemma steady_step:
  assumes "\<not> isTransitioning s" and "dynamicDuration a s = Fin d" and "rat_of_nat (patternTimer s + 1) \<le> d"
  shows "updatePatternTransition a s = s\<lparr>patternTimer := patternTimer s + 1\<rparr>"
  using assms by (simp add: updatePatternTransition_cases num_def number_ops del: of_nat_Suc of_nat_add)

lemma begin_step:
  assumes "\<not> isTransitioning s" and "dynamicDuration a s = Fin d" and "d < rat_of_nat (patternTimer s + 1)"
  shows "updatePatternTransition a s = s\<lparr>patternTimer := patternTimer s + 1, isTransitioning := True,
             transitionProgress := 0, patternIndex := (patternIndex s + 1) mod 10,
             nextPattern := patternSequence ! ((patternIndex s + 1) mod 10)\<rparr>"
  using assms by (simp add: updatePatternTransition_cases num_def number_ops del: of_nat_Suc of_nat_add)

lemma steady_funpow:
  assumes "\<not> isTransitioning s" and "dynamicDuration a s = Fin d" and "rat_of_nat (patternTimer s + n) \<le> d"
  shows "(updatePatternTransition a ^^ n) s = s\<lparr>patternTimer := patternTimer s + n\<rparr>"
  using assms(3)
proof (induction n)
  case 0
  show ?case by simp
next
  case (Suc n)
  from Suc.prems have le: "rat_of_nat (patternTimer s + n) \<le> d" by simp
  have "(updatePatternTransition a ^^ Suc n) s = updatePatternTransition a (s\<lparr>patternTimer := patternTimer s + n\<rparr>)"
    using Suc.IH [OF le] by simp
  also have "\<dots> = s\<lparr>patternTimer := patternTimer s + n\<rparr>
      \<lparr>patternTimer := patternTimer (s\<lparr>patternTimer := patternTimer s + n\<rparr>) + 1\<rparr>"
  proof (rule steady_step [where d = d])
    show "\<not> isTransitioning (s\<lparr>patternTimer := patternTimer s + n\<rparr>)"
      using assms(1) by simp
    show "dynamicDuration a (s\<lparr>patternTimer := patternTimer s + n\<rparr>) = Fin d"
      using assms(2) by (simp add: dynamicDuration_def)
    show "rat_of_nat (patternTimer (s\<lparr>patternTimer := patternTimer s + n\<rparr>) + 1) \<le> d"
      using Suc.prems by simp
  qed
  finally show ?case by simp
qed

lemma steady_frames:
  assumes "\<not> isTransitioning s"
    and "dynamicDuration (fst (audioMetrics dataArray bufferLength)) s = Fin d"
    and "rat_of_nat (patternTimer s + n) \<le> d"
  shows "\<exists>s' k'. frames M (replicate n (dataArray, bufferLength)) (s, k) = Some (s', k') \<and>
     \<not> isTransitioning s' \<and> patternTimer s' = patternTimer s + n \<and>
     patternDuration s' = patternDuration s \<and> patternIndex s' = patternIndex s \<and>
     currentPattern s' = currentPattern s"
  using assms
proof (induction n arbitrary: s k)
  case 0
  then show ?case by simp
next
  case (Suc n)
  let ?a = "fst (audioMetrics dataArray bufferLength)"
  from Suc.prems(3) have le: "rat_of_nat (patternTimer s + 1) \<le> d" by simp
  have u: "updatePatternTransition ?a s = s\<lparr>patternTimer := patternTimer s + 1\<rparr>"
    by (rule steady_step [OF Suc.prems(1,2) le])
  from render_scheduler [of M dataArray bufferLength s k]
  obtain s1 k1 where r: "render M dataArray bufferLength (s, k) = Some (s1, k1)"
    and f: "currentPattern s1 = currentPattern s" "patternIndex s1 = patternIndex s"
       "patternTimer s1 = patternTimer s + 1" "\<not> isTransitioning s1" "patternDuration s1 = patternDuration s"
    unfolding u using Suc.prems(1) by auto
  have d1: "dynamicDuration ?a s1 = Fin d"
    using Suc.prems(2) f(5) by (simp add: dynamicDuration_def)
  have le1: "rat_of_nat (patternTimer s1 + n) \<le> d" using Suc.prems(3) f(3) by simp
  from Suc.IH [OF f(4) d1 le1, of k1] f
  obtain s' k' where "frames M (replicate n (dataArray, bufferLength)) (s1, k1) = Some (s', k')"
     "\<not> isTransitioning s'" "patternTimer s' = patternTimer s + Suc n"
     "patternDuration s' = patternDuration s" "patternIndex s' = patternIndex s"
     "currentPattern s' = currentPattern s"
    by auto
  then show ?case by (auto simp: r)
qed

lemma frames_append:
  "frames M (xs @ ys) w = Option.bind (frames M xs w) (frames M ys)"
  by (induction xs arbitrary: w) (auto split: bind_splits)

lemma replicate_Suc_snoc: "replicate (Suc n) x = replicate n x @ [x]"
  by (simp add: replicate_append_same)

lemma begin_frames:
  assumes "\<not> isTransitioning s"
    and "dynamicDuration (fst (audioMetrics dataArray bufferLength)) s = Fin d"
    and "rat_of_nat (patternTimer s + n) \<le> d" and "d < rat_of_nat (patternTimer s + n + 1)"
  shows "\<exists>s' k'. frames M (replicate (Suc n) (dataArray, bufferLength)) (s, k) = Some (s', k') \<and>
     isTransitioning s' \<and> patternTimer s' = patternTimer s + n + 1 \<and>
     nextPattern s' = patternSequence ! ((patternIndex s + 1) mod 10) \<and>
     currentPattern s' = currentPattern s"
proof -
  let ?a = "fst (audioMetrics dataArray bufferLength)"
  from steady_frames [OF assms(1,2,3), of M k]
  obtain s1 k1 where 1: "frames M (replicate n (dataArray, bufferLength)) (s, k) = Some (s1, k1)"
    and f: "\<not> isTransitioning s1" "patternTimer s1 = patternTimer s + n"
     "patternDuration s1 = patternDuration s" "patternIndex s1 = patternIndex s"
     "currentPattern s1 = currentPattern s"
    by blast
  have d1: "dynamicDuration ?a s1 = Fin d" using assms(2) f(3) by (simp add: dynamicDuration_def)
  have lt: "d < rat_of_nat (patternTimer s1 + 1)" using assms(4) f(2) by simp
  note u = begin_step [OF f(1) d1 lt]
  from render_scheduler [of M dataArray bufferLength s1 k1]
  obtain s' k' where r: "render M dataArray bufferLength (s1, k1) = Some (s', k')"
    and g: "isTransitioning s'" "patternTimer s' = patternTimer s + n + 1"
      "nextPattern s' = patternSequence ! ((patternIndex s + 1) mod 10)" "currentPattern s' = currentPattern s"
    unfolding u using f by auto
  have "frames M (replicate (Suc n) (dataArray, bufferLength)) (s, k) = Some (s', k')"
    unfolding replicate_Suc_snoc frames_append by (simp add: 1 r)
  with g show ?thesis by blast
qed

lemma funpow_next: "(f ^^ Suc n) x = f ((f ^^ n) x)"
  by simp

lemma silent_600:
  "(updatePatternTransition 0 ^^ 600) initial_fields = initial_fields\<lparr>patternTimer := 600\<rparr>"
proof -
  have "(updatePatternTransition 0 ^^ 600) initial_fields =
      initial_fields\<lparr>patternTimer := patternTimer initial_fields + 600\<rparr>"
    by (rule steady_funpow [where d = 600])
       (simp_all add: initial_fields_def dynamicDuration_def number_ops)
  then show ?thesis by (simp add: initial_fields_def)
qed

lemma silent_601:
  "(updatePatternTransition 0 ^^ 601) initial_fields =
     initial_fields\<lparr>patternTimer := 601, isTransitioning := True, patternIndex := 1\<rparr>"
proof -
  have "(601::nat) = Suc 600" by simp
  then have "(updatePatternTransition 0 ^^ 601) initial_fields =
      updatePatternTransition 0 ((updatePatternTransition 0 ^^ 600) initial_fields)"
    by (simp only: funpow_next)
  also have "\<dots> = updatePatternTransition 0 (initial_fields\<lparr>patternTimer := 600\<rparr>)"
    by (simp only: silent_600)
  also have "\<dots> = initial_fields\<lparr>patternTimer := 601, isTransitioning := True, patternIndex := 1\<rparr>"
    by (simp add: updatePatternTransition_cases initial_fields_def dynamicDuration_def number_ops
          num_def patternSequence_def)
  finally show ?thesis .
qed

lemma loud_dynamicDuration:
  "dynamicDuration 1 (s\<lparr>patternDuration := Fin d\<rparr>) = Fin (max 300 (d - 200))"
  by (simp add: dynamicDuration_def number_ops max_def)

section \<open>The scheduler on its cycle\<close>

lemma on_cycle_step:
  assumes "on_cycle c s"
  shows "on_cycle (c + (if isTransitioning s \<and> \<not> isTransitioning (updatePatternTransition a s) then 1 else 0))
           (updatePatternTransition a s)"
proof -
  have m: "(c mod 10 + 1) mod 10 = (c + 1) mod 10" by (simp add: mod_simps)
  show ?thesis
    using assms unfolding on_cycle_def updatePatternTransition_cases
    by (auto simp: m simp del: One_nat_def)
qed

lemma schedulerState_step:
  assumes "schedulerState s = schedulerState t"
  shows "schedulerState (updatePatternTransition a s) = schedulerState (updatePatternTransition a t)"
  using assms unfolding schedulerState_def updatePatternTransition_cases dynamicDuration_def
  by (simp del: One_nat_def)

lemma render_schedulerState:
  "\<exists>s' k'. render M dataArray bufferLength (s, k) = Some (s', k') \<and>
     schedulerState s' = schedulerState (updatePatternTransition (fst (audioMetrics dataArray bufferLength)) s)"
  using render_scheduler [of M dataArray bufferLength s k]
  by (auto simp: schedulerState_def updatePatternTransition_config)

lemma on_cycle_cong: "schedulerState s = schedulerState t \<Longrightarrow> on_cycle c s = on_cycle c t"
  by (simp add: schedulerState_def on_cycle_def)

lemma isTransitioning_cong: "schedulerState s = schedulerState t \<Longrightarrow> isTransitioning s = isTransitioning t"
  by (simp add: schedulerState_def)

lemma cycle_frames:
  assumes "on_cycle c s" and "schedulerState t = schedulerState s"
  shows "\<exists>s' k' t' j'. frames M inputs (s, k) = Some (s', k') \<and>
           frames M' inputs (t, j) = Some (t', j') \<and>
           on_cycle (c + completed M inputs (s, k)) s' \<and>
           schedulerState t' = schedulerState s' \<and>
           completed M' inputs (t, j) = completed M inputs (s, k)"
  using assms
proof (induction inputs arbitrary: s k t j c)
  case Nil
  then show ?case by simp
next
  case (Cons input inputs)
  obtain dataArray bufferLength where input: "input = (dataArray, bufferLength)" by (cases input)
  let ?a = "fst (audioMetrics dataArray bufferLength)"
  from render_schedulerState [of M dataArray bufferLength s k]
  obtain s1 k1 where rs: "render M dataArray bufferLength (s, k) = Some (s1, k1)"
    and ss: "schedulerState s1 = schedulerState (updatePatternTransition ?a s)" by blast
  from render_schedulerState [of M' dataArray bufferLength t j]
  obtain t1 j1 where rt: "render M' dataArray bufferLength (t, j) = Some (t1, j1)"
    and st: "schedulerState t1 = schedulerState (updatePatternTransition ?a t)" by blast
  have eq1: "schedulerState t1 = schedulerState s1"
    using ss st schedulerState_step [OF Cons.prems(2), of ?a] by simp
  define d :: nat where "d = (if isTransitioning s \<and> \<not> isTransitioning s1 then 1 else 0)"
  have d': "d = (if isTransitioning t \<and> \<not> isTransitioning t1 then 1 else 0)"
    using isTransitioning_cong [OF eq1] isTransitioning_cong [OF Cons.prems(2)] by (simp add: d_def)
  have "on_cycle (c + d) (updatePatternTransition ?a s)"
    using on_cycle_step [OF Cons.prems(1), of ?a] isTransitioning_cong [OF ss] by (simp add: d_def)
  then have oc: "on_cycle (c + d) s1" using on_cycle_cong [OF ss] by simp
  from Cons.IH [OF oc eq1, of k1 j1]
  obtain s' k' t' j' where rest: "frames M inputs (s1, k1) = Some (s', k')"
      "frames M' inputs (t1, j1) = Some (t', j')"
      "on_cycle (c + d + completed M inputs (s1, k1)) s'"
      "schedulerState t' = schedulerState s'"
      "completed M' inputs (t1, j1) = completed M inputs (s1, k1)"
    by blast
  have cs: "completed M (input # inputs) (s, k) = d + completed M inputs (s1, k1)"
    by (simp add: input rs d_def)
  have ct: "completed M' (input # inputs) (t, j) = d + completed M' inputs (t1, j1)"
    by (simp add: input rt d')
  have "frames M (input # inputs) (s, k) = Some (s', k')" by (simp add: input rs rest(1))
  moreover have "frames M' (input # inputs) (t, j) = Some (t', j')" by (simp add: input rt rest(2))
  moreover have "on_cycle (c + completed M (input # inputs) (s, k)) s'"
    using rest(3) by (simp add: cs add.assoc)
  moreover have "completed M' (input # inputs) (t, j) = completed M (input # inputs) (s, k)"
    by (simp add: cs ct rest(5))
  ultimately show ?case using rest(4) by blast
qed

lemma patternSequence_first: "i < 10 \<Longrightarrow> (patternSequence ! i = Rays) = (i = 0)"
proof -
  assume i: "i < 10"
  have d: "distinct patternSequence" by (simp add: patternSequence_def)
  have "(patternSequence ! i = patternSequence ! 0) = (i = 0)"
    using nth_eq_iff_index_eq [OF d, of i 0] i by (simp add: patternSequence_length)
  then show ?thesis by (simp add: patternSequence_def)
qed

section \<open>The particle pool\<close>

lemma length_push_new: "length (fst (push_new create n k)) = n"
  by (induction n arbitrary: k) (simp_all add: case_prod_beta)

lemma particle_count:
  "nat (min 1200 \<lfloor>rat_of_nat (w * h) / 800\<rfloor>) = min 1200 (w * h div 800)"
proof -
  have "\<lfloor>rat_of_nat (w * h) / rat_of_nat 800\<rfloor> = int (w * h div 800)"
    by (rule floor_divide_of_nat_eq)
  then have "\<lfloor>rat_of_nat (w * h) / 800\<rfloor> = int (w * h div 800)" by simp
  then show ?thesis by (simp add: min_def)
qed

lemma initializeParticles_length:
  "length (particles (fst (initializeParticles M (s, k)))) = min 1200 (width s * height s div 800)"
  by (simp add: initializeParticles_def case_prod_beta Let_def length_push_new particle_count
        del: of_nat_mult)

lemma resize_particles:
  "length (particles (fst (resize M w h (s, k)))) = min 1200 (w * h div 800)"
proof -
  let ?s = "s\<lparr>width := w, height := h, centerX := num w / 2, centerY := num h / 2\<rparr>"
  obtain ps k1 where 1: "initializeParticles M (?s, k) = (?s\<lparr>particles := ps\<rparr>, k1)"
    using initialize_frame(1) by blast
  have len: "length ps = min 1200 (w * h div 800)"
    using initializeParticles_length [of M ?s k] by (simp add: 1)
  obtain bs k2 where 2: "initializeBubbles M (?s\<lparr>particles := ps\<rparr>, k1) = (?s\<lparr>particles := ps, bubbles := bs\<rparr>, k2)"
    using initialize_frame(2) [of M "?s\<lparr>particles := ps\<rparr>" k1] by auto
  obtain vs k3 where 3: "initializeVoronoiSeeds M (?s\<lparr>particles := ps, bubbles := bs\<rparr>, k2) =
      (?s\<lparr>particles := ps, bubbles := bs, voronoiSeeds := vs\<rparr>, k3)"
    using initialize_frame(3) [of M "?s\<lparr>particles := ps, bubbles := bs\<rparr>" k2] by auto
  have "resize M w h (s, k) = (?s\<lparr>particles := ps, bubbles := bs, voronoiSeeds := vs\<rparr>, k3)"
    by (simp add: resize_def 1 2 3)
  then show ?thesis by (simp add: len)
qed





lemma create_cong:
  assumes "width s = width t" "height s = height t" "centerX s = centerX t" "centerY s = centerY t"
  shows "createParticle M s = createParticle M t" "createBubble M s = createBubble M t"
        "createSeed M s = createSeed M t"
  using assms by (auto simp: createParticle_def createBubble_def createSeed_def fun_eq_iff)

lemma resize_eq:
  "resize M w h (s, k) =
     (let ((ps, bs, vs), k') = fresh_pools M w h k
      in (s\<lparr>width := w, height := h, centerX := num w / 2, centerY := num h / 2,
            particles := ps, bubbles := bs, voronoiSeeds := vs\<rparr>, k'))"
proof -
  let ?s = "s\<lparr>width := w, height := h, centerX := num w / 2, centerY := num h / 2\<rparr>"
  let ?d = "initial_fields\<lparr>width := w, height := h, centerX := num w / 2, centerY := num h / 2\<rparr>"
  have c: "createParticle M ?s = createParticle M ?d" "createBubble M ?s = createBubble M ?d"
      "createSeed M ?s = createSeed M ?d"
    by (rule create_cong; simp)+
  have c2: "createBubble M (?s\<lparr>particles := ps\<rparr>) = createBubble M ?d" for ps
    by (rule create_cong; simp)
  have c3: "createSeed M (?s\<lparr>particles := ps, bubbles := bs\<rparr>) = createSeed M ?d" for ps bs
    by (rule create_cong; simp)
  show ?thesis
    unfolding resize_def fresh_pools_def initializeParticles_def initializeBubbles_def
      initializeVoronoiSeeds_def
    by (simp add: case_prod_beta Let_def c c2 c3 del: of_nat_mult)
qed

section \<open>The bubble pass\<close>

lemma update_each_snoc:
  "update_each M s t (xs @ [b]) k =
     (let (b', k1) = updateBubble M s t b k; (xs', k2) = update_each M s t xs k1
      in (xs' @ [b'], k2))"
  by (induction xs) (simp_all add: case_prod_beta Let_def)

lemma length_update_each: "length (fst (update_each M s t bs k)) = length bs"
  by (induction bs) (simp_all add: case_prod_beta Let_def)

lemma elem_middle: "elem (xs @ y # ys) (int (length xs)) = Some y"
  by (simp add: elem_def)

lemma update_middle: "(xs @ y # ys)[length xs := z] = xs @ z # ys"
  by simp

lemma splice1_middle: "splice1 (xs @ y # ys) (length xs) = xs @ ys"
  by (simp add: splice1_def)

lemma riseBubble_popProgress: "b_popProgress (fst (riseBubble M s t b k)) = b_popProgress b"
  by (simp add: riseBubble_def Let_def)

text \<open>
  The pass over the first \<open>length xs\<close> entries of the pool: they are updated, the finished
  ones are removed, and the entries behind them are not touched.
\<close>

lemma updateBubbles_prefix:
  assumes "\<forall>b\<in>set xs. \<not> b_popping b \<longrightarrow> b_popProgress b = 0"
  shows "updateBubbles M s t (length xs) (xs @ ys) k =
     (filter (\<lambda>b. \<not> b_popProgress b \<ge> 1) (fst (update_each M s t xs k)) @ ys,
      snd (update_each M s t xs k))"
  using assms
proof (induction xs arbitrary: ys k rule: rev_induct)
  case Nil
  show ?case by simp
next
  case (snoc b xs)
  from snoc.prems have inv: "\<forall>b\<in>set xs. \<not> b_popping b \<longrightarrow> b_popProgress b = 0" by simp
  note IH = snoc.IH [OF inv]
  have step: "updateBubbles M s t (length (xs @ [b])) ((xs @ [b]) @ ys) k =
     (case elem (xs @ b # ys) (int (length xs)) of
        None \<Rightarrow> updateBubbles M s t (length xs) (xs @ b # ys) k
      | Some bubble0 \<Rightarrow>
          if b_popping bubble0 then
            (let bubble = bubble0\<lparr>b_popProgress := b_popProgress bubble0 + (0.1 + t * 0.1)\<rparr>
             in if b_popProgress bubble \<ge> 1
                then updateBubbles M s t (length xs) (splice1 ((xs @ b # ys)[length xs := bubble]) (length xs)) k
                else updateBubbles M s t (length xs) ((xs @ b # ys)[length xs := bubble]) k)
          else
            (let (bubble, k1) = riseBubble M s t bubble0 k
             in updateBubbles M s t (length xs) ((xs @ b # ys)[length xs := bubble]) k1))"
    by simp
  show ?case
  proof (cases "b_popping b")
    case True
    define b' where "b' = b\<lparr>b_popProgress := b_popProgress b + (0.1 + t * 0.1)\<rparr>"
    have ub: "updateBubble M s t b k = (b', k)" by (simp add: updateBubble_def True b'_def)
    show ?thesis
    proof (cases "b_popProgress b' \<ge> 1")
      case finished: True
      have "updateBubbles M s t (length (xs @ [b])) ((xs @ [b]) @ ys) k =
          updateBubbles M s t (length xs) (xs @ ys) k"
        unfolding step elem_middle using True finished
        by (simp add: b'_def [symmetric] Let_def update_middle splice1_middle del: list_update_length)
      then show ?thesis
        using finished by (simp add: IH update_each_snoc ub case_prod_beta)
    next
      case False
      have "updateBubbles M s t (length (xs @ [b])) ((xs @ [b]) @ ys) k =
          updateBubbles M s t (length xs) (xs @ b' # ys) k"
        unfolding step elem_middle using True False
        by (simp add: b'_def [symmetric] Let_def update_middle del: list_update_length)
      then show ?thesis
        using False by (simp add: IH update_each_snoc ub case_prod_beta)
    qed
  next
    case False
    obtain b' k1 where rb: "riseBubble M s t b k = (b', k1)" by (cases "riseBubble M s t b k")
    have ub: "updateBubble M s t b k = (b', k1)" by (simp add: updateBubble_def False rb)
    have "b_popProgress b' = 0"
      using riseBubble_popProgress [of M s t b k] snoc.prems False by (simp add: rb)
    then have keep: "\<not> b_popProgress b' \<ge> 1" by (simp add: number_ops)
    have "updateBubbles M s t (length (xs @ [b])) ((xs @ [b]) @ ys) k =
          updateBubbles M s t (length xs) (xs @ b' # ys) k1"
      unfolding step elem_middle using False
      by (simp add: rb update_middle del: list_update_length)
    then show ?thesis
      using keep by (simp add: IH update_each_snoc ub case_prod_beta)
  qed
qed

lemma update_each_nth:
  "i < length bs \<Longrightarrow> \<exists>j. fst (update_each M s t bs k) ! i = fst (updateBubble M s t (bs ! i) j)"
proof (induction bs arbitrary: i)
  case Nil
  then show ?case by simp
next
  case (Cons b bs)
  show ?case
  proof (cases i)
    case 0
    then show ?thesis by (auto simp: case_prod_beta Let_def)
  next
    case (Suc i')
    with Cons.prems have "i' < length bs" by simp
    from Cons.IH [OF this] Suc show ?thesis by (simp add: case_prod_beta Let_def)
  qed
qed

lemma num_lt_succ: "m < (a::number) \<Longrightarrow> m < a + 1"
  by (cases m; cases a) (simp_all add: number_ops)

lemma riseBubble_facts:
  "b_age (fst (riseBubble M s t b j)) = b_age b + 1"
  "b_maxAge (fst (riseBubble M s t b j)) = b_maxAge b"
  "b_radius (fst (riseBubble M s t b j)) = b_radius b"
  "b_popping (fst (riseBubble M s t b j)) =
          (b_popping b \<or> b_age (fst (riseBubble M s t b j)) > b_maxAge b \<or>
           b_y (fst (riseBubble M s t b j)) < (- b_radius b) * 2 \<or>
           b_x (fst (riseBubble M s t b j)) < - b_radius b \<or>
           b_x (fst (riseBubble M s t b j)) > num (width s) + b_radius b \<or>
           (t > 0.7 \<and> random M (j + 1) > 0.95))"
  by (auto simp: riseBubble_def Let_def)

lemma overaged_pops: "b_age b > b_maxAge b \<Longrightarrow> b_popping (fst (riseBubble M s t b j))"
  by (subst riseBubble_facts(4)) (simp add: riseBubble_facts(1) num_lt_succ)

section \<open>Rising bubbles have no pop progress\<close>

text \<open>
  In every pool the engine builds, a rising bubble has the pop progress \<open>0\<close>: a bubble is
  created so, and the pop progress is advanced only while the bubble is popping.
\<close>

lemma createBubble_rising:
  "\<not> b_popping (fst (createBubble M s k))" "b_popProgress (fst (createBubble M s k)) = 0"
  by (simp_all add: createBubble_def)

lemma push_new_all:
  assumes "\<And>k. P (fst (create k))"
  shows "\<forall>x\<in>set (fst (push_new create n k)). P x"
  using assms by (induction n arbitrary: k) (simp_all add: case_prod_beta)

lemma initializeBubbles_rising:
  "\<forall>b\<in>set (bubbles (fst (initializeBubbles M (s, k)))). \<not> b_popping b \<longrightarrow> b_popProgress b = 0"
proof -
  have "\<forall>b\<in>set (fst (push_new (createBubble M s) n j)). \<not> b_popping b \<longrightarrow> b_popProgress b = 0" for n j
    by (rule push_new_all) (simp add: createBubble_rising)
  then show ?thesis
    by (simp add: initializeBubbles_def case_prod_beta Let_def)
qed

lemma updateBubble_rising:
  assumes "\<not> b_popping b \<longrightarrow> b_popProgress b = 0"
  shows "\<not> b_popping (fst (updateBubble M s t b k)) \<longrightarrow> b_popProgress (fst (updateBubble M s t b k)) = 0"
  using assms by (cases "b_popping b") (simp_all add: updateBubble_def riseBubble_popProgress)

lemma update_each_rising:
  assumes "\<forall>b\<in>set bs. \<not> b_popping b \<longrightarrow> b_popProgress b = 0"
  shows "\<forall>b\<in>set (fst (update_each M s t bs k)). \<not> b_popping b \<longrightarrow> b_popProgress b = 0"
  using assms
proof (induction bs)
  case Nil
  show ?case by simp
next
  case (Cons b bs)
  then have "\<forall>b\<in>set (fst (update_each M s t bs k)). \<not> b_popping b \<longrightarrow> b_popProgress b = 0" by simp
  moreover have "\<not> b_popping (fst (updateBubble M s t b j)) \<longrightarrow>
      b_popProgress (fst (updateBubble M s t b j)) = 0" for j
    using updateBubble_rising Cons.prems by simp
  ultimately show ?case by (simp add: case_prod_beta Let_def)
qed

lemma spawnBubble_rising:
  assumes "\<forall>b\<in>set (bubbles s). \<not> b_popping b \<longrightarrow> b_popProgress b = 0"
  shows "\<forall>b\<in>set (bubbles (fst (spawnBubble M a (s, k)))). \<not> b_popping b \<longrightarrow> b_popProgress b = 0"
  using assms by (simp add: spawnBubble_def case_prod_beta createBubble_rising)

lemma renderBubbles_rising:
  assumes "\<forall>b\<in>set (bubbles s). \<not> b_popping b \<longrightarrow> b_popProgress b = 0"
  shows "\<forall>b\<in>set (bubbles (fst (renderBubbles M a bass t (s, k)))). \<not> b_popping b \<longrightarrow> b_popProgress b = 0"
proof -
  obtain s1 k1 where sp: "spawnBubble M bass (s, k) = (s1, k1)" by (cases "spawnBubble M bass (s, k)")
  have inv1: "\<forall>b\<in>set (bubbles s1). \<not> b_popping b \<longrightarrow> b_popProgress b = 0"
    using spawnBubble_rising [OF assms, of M bass k] by (simp add: sp)
  have pass: "updateBubbles M s1 t (length (bubbles s1)) (bubbles s1) k1 =
      (filter (\<lambda>b. \<not> b_popProgress b \<ge> 1) (fst (update_each M s1 t (bubbles s1) k1)),
       snd (update_each M s1 t (bubbles s1) k1))"
    using updateBubbles_prefix [OF inv1, of M s1 t "[]" k1] by simp
  have "bubbles (fst (renderBubbles M a bass t (s, k))) =
      filter (\<lambda>b. \<not> b_popProgress b \<ge> 1) (fst (update_each M s1 t (bubbles s1) k1))"
    by (simp add: renderBubbles_def sp pass)
  with update_each_rising [OF inv1, of M s1 t k1] show ?thesis by simp
qed

lemma renderPattern_rising:
  assumes "renderPattern M p a b m t (s, k) = Some (s', k')"
    and "\<forall>b\<in>set (bubbles s). \<not> b_popping b \<longrightarrow> b_popProgress b = 0"
  shows "\<forall>b\<in>set (bubbles s'). \<not> b_popping b \<longrightarrow> b_popProgress b = 0"
proof (cases p)
  case Fractal
  with assms(1) obtain iters where "renderFractal M a b m s = Some (s', iters)"
    by (auto simp: renderPattern_def)
  then have "bubbles s' = bubbles s" by (auto simp: renderFractal_def Let_def)
  with assms(2) show ?thesis by simp
next
  case Bubbles
  with assms(1) have "s' = fst (renderBubbles M a b t (s, k))" by (auto simp: renderPattern_def)
  with renderBubbles_rising [OF assms(2)] show ?thesis by simp
next
  case Voronoi
  with assms show ?thesis by (auto simp: renderPattern_def renderVoronoi_def)
next
  case Swarm
  with assms show ?thesis by (auto simp: renderPattern_def renderSwarm_def)
qed (use assms in \<open>auto simp: renderPattern_def\<close>)

lemma render_rising:
  assumes "render M dataArray bufferLength (s, k) = Some (s', k')"
    and "\<forall>b\<in>set (bubbles s). \<not> b_popping b \<longrightarrow> b_popProgress b = 0"
  shows "\<forall>b\<in>set (bubbles s'). \<not> b_popping b \<longrightarrow> b_popProgress b = 0"
proof -
  obtain a b m t where am: "audioMetrics dataArray bufferLength = (a, b, m, t)"
    by (metis prod_cases4)
  define u where "u = updatePatternTransition a
     (s\<lparr>time := time s + 1, hueBase := (hueBase s + 0.3 + b * 1.5) mod 360\<rparr>)"
  have bu: "bubbles u = bubbles s"
    by (simp add: u_def updatePatternTransition_cases)
  have r: "render M dataArray bufferLength (s, k) =
     (if isTransitioning u then
        Option.bind (renderPattern M (currentPattern u) a b m t (u, k))
          (\<lambda>(s1, k1). renderPattern M (nextPattern s1) a b m t (s1, k1))
      else renderPattern M (currentPattern u) a b m t (u, k))"
    by (simp add: render_def am Let_def u_def)
  have iu: "\<forall>b\<in>set (bubbles u). \<not> b_popping b \<longrightarrow> b_popProgress b = 0"
    using assms(2) by (simp add: bu)
  show ?thesis
  proof (cases "isTransitioning u")
    case False
    with r assms(1) have "renderPattern M (currentPattern u) a b m t (u, k) = Some (s', k')" by simp
    from renderPattern_rising [OF this iu] show ?thesis .
  next
    case True
    with r assms(1) obtain s1 k1 where 1: "renderPattern M (currentPattern u) a b m t (u, k) = Some (s1, k1)"
      and 2: "renderPattern M (nextPattern s1) a b m t (s1, k1) = Some (s', k')"
      by (auto split: bind_splits)
    from renderPattern_rising [OF 2 renderPattern_rising [OF 1 iu]] show ?thesis .
  qed
qed

lemma frames_rising:
  assumes "frames M inputs (s, k) = Some (s', k')"
    and "\<forall>b\<in>set (bubbles s). \<not> b_popping b \<longrightarrow> b_popProgress b = 0"
  shows "\<forall>b\<in>set (bubbles s'). \<not> b_popping b \<longrightarrow> b_popProgress b = 0"
  using assms
proof (induction inputs arbitrary: s k)
  case Nil
  then show ?case by simp
next
  case (Cons input inputs)
  obtain dataArray bufferLength where input: "input = (dataArray, bufferLength)" by (cases input)
  from Cons.prems(1) obtain s1 k1 where r: "render M dataArray bufferLength (s, k) = Some (s1, k1)"
    and f: "frames M inputs (s1, k1) = Some (s', k')"
    by (auto simp: input split: bind_splits)
  from Cons.IH [OF f render_rising [OF r Cons.prems(2)]] show ?case .
qed

lemma resize_rising:
  "\<forall>b\<in>set (bubbles (fst (resize M w h (s, k)))). \<not> b_popping b \<longrightarrow> b_popProgress b = 0"
proof -
  obtain s1 k1 where 1: "initializeParticles M
       (s\<lparr>width := w, height := h, centerX := num w / 2, centerY := num h / 2\<rparr>, k) = (s1, k1)"
    by fastforce
  obtain bs k2 where 2: "initializeBubbles M (s1, k1) = (s1\<lparr>bubbles := bs\<rparr>, k2)"
    using initialize_frame(2) by blast
  have inv: "\<forall>b\<in>set bs. \<not> b_popping b \<longrightarrow> b_popProgress b = 0"
    using initializeBubbles_rising [of M s1 k1] by (simp add: 2)
  obtain vs k3 where 3: "initializeVoronoiSeeds M (s1\<lparr>bubbles := bs\<rparr>, k2) =
      (s1\<lparr>bubbles := bs, voronoiSeeds := vs\<rparr>, k3)"
    using initialize_frame(3) [of M "s1\<lparr>bubbles := bs\<rparr>" k2] by auto
  have "resize M w h (s, k) = (s1\<lparr>bubbles := bs, voronoiSeeds := vs\<rparr>, k3)"
    by (simp add: resize_def 1 2 3)
  with inv show ?thesis by simp
qed

lemma constructor_rising:
  assumes "constructor M cw ch True k0 = Inr (s0, k1)"
  shows "\<forall>b\<in>set (bubbles s0). \<not> b_popping b \<longrightarrow> b_popProgress b = 0"
proof -
  have "constructor M cw ch True k0 = Inr (resize M cw ch (initial_fields, k0))"
    by (simp add: constructor_def resize_def)
  with assms have "s0 = fst (resize M cw ch (initial_fields, k0))" by simp
  then show ?thesis using resize_rising by simp
qed

section \<open>Full cycles\<close>

lemma frames_Some: "\<exists>s' k'. frames M inputs (s, k) = Some (s', k')"
proof (induction inputs arbitrary: s k)
  case Nil
  show ?case by simp
next
  case (Cons input inputs)
  obtain dataArray bufferLength where input: "input = (dataArray, bufferLength)" by (cases input)
  from render_Some [of M dataArray bufferLength s k]
  obtain s1 k1 where r: "render M dataArray bufferLength (s, k) = Some (s1, k1)" by blast
  from Cons.IH [of s1 k1] show ?case by (simp add: input r)
qed

lemma completed_append:
  assumes "frames M xs w = Some w'"
  shows "completed M (xs @ ys) w = completed M xs w + completed M ys w'"
  using assms
proof (induction xs arbitrary: w)
  case Nil
  then show ?case by simp
next
  case (Cons input xs)
  obtain dataArray bufferLength where input: "input = (dataArray, bufferLength)" by (cases input)
  from Cons.prems obtain w1 where r: "render M dataArray bufferLength w = Some w1"
    and f: "frames M xs w1 = Some w'"
    by (auto simp: input split: bind_splits)
  from Cons.IH [OF f] show ?case by (simp add: input r)
qed

text \<open>A transition under way: the progress grows by the same amount every frame.\<close>

lemma transit_step:
  assumes "isTransitioning s" and "transitionProgress s = Fin p" and "transitionSpeed s = Fin v"
    and "p + v * (1 + a * (1 / 2)) < 1"
  shows "updatePatternTransition (Fin a) s =
     s\<lparr>patternTimer := patternTimer s + 1, transitionProgress := Fin (p + v * (1 + a * (1 / 2)))\<rparr>"
  using assms by (simp add: updatePatternTransition_cases number_ops)

lemma commit_step:
  assumes "isTransitioning s" and "transitionProgress s = Fin p" and "transitionSpeed s = Fin v"
    and "1 \<le> p + v * (1 + a * (1 / 2))"
  shows "updatePatternTransition (Fin a) s =
     s\<lparr>patternTimer := 0, transitionProgress := 0, isTransitioning := False,
       currentPattern := nextPattern s\<rparr>"
  using assms by (simp add: updatePatternTransition_cases number_ops)

lemma run_append:
  assumes "frames M xs (s, k) = Some (s1, k1)" and "frames M ys (s1, k1) = Some (s2, k2)"
  shows "frames M (xs @ ys) (s, k) = Some (s2, k2)"
    and "completed M (xs @ ys) (s, k) = completed M xs (s, k) + completed M ys (s1, k1)"
  using assms by (simp_all add: frames_append completed_append)

lemma one_frame:
  "\<exists>s' k'. frames M [(dataArray, bufferLength)] (s, k) = Some (s', k') \<and>
     schedulerState s' = schedulerState (updatePatternTransition (fst (audioMetrics dataArray bufferLength)) s) \<and>
     completed M [(dataArray, bufferLength)] (s, k) =
       (if isTransitioning s \<and>
           \<not> isTransitioning (updatePatternTransition (fst (audioMetrics dataArray bufferLength)) s)
        then 1 else 0)"
proof -
  from render_schedulerState [of M dataArray bufferLength s k]
  obtain s' k' where r: "render M dataArray bufferLength (s, k) = Some (s', k')"
    and ss: "schedulerState s' = schedulerState (updatePatternTransition (fst (audioMetrics dataArray bufferLength)) s)"
    by blast
  show ?thesis using isTransitioning_cong [OF ss] ss by (simp add: r)
qed

lemma steady_run:
  assumes "\<not> isTransitioning s"
    and "dynamicDuration (fst (audioMetrics dataArray bufferLength)) s = Fin d"
    and "rat_of_nat (patternTimer s + n) \<le> d"
  shows "\<exists>s' k'. frames M (replicate n (dataArray, bufferLength)) (s, k) = Some (s', k') \<and>
     schedulerState s' = schedulerState (s\<lparr>patternTimer := patternTimer s + n\<rparr>) \<and>
     completed M (replicate n (dataArray, bufferLength)) (s, k) = 0"
  using assms
proof (induction n arbitrary: s k)
  case 0
  then show ?case by simp
next
  case (Suc n)
  let ?a = "fst (audioMetrics dataArray bufferLength)"
  from Suc.prems(3) have le: "rat_of_nat (patternTimer s + 1) \<le> d" by simp
  have u: "updatePatternTransition ?a s = s\<lparr>patternTimer := patternTimer s + 1\<rparr>"
    by (rule steady_step [OF Suc.prems(1,2) le])
  from render_schedulerState [of M dataArray bufferLength s k]
  obtain s1 k1 where r: "render M dataArray bufferLength (s, k) = Some (s1, k1)"
    and ss: "schedulerState s1 = schedulerState (s\<lparr>patternTimer := patternTimer s + 1\<rparr>)"
    unfolding u by blast
  from ss have f: "\<not> isTransitioning s1" "patternTimer s1 = patternTimer s + 1"
      "patternDuration s1 = patternDuration s"
    using Suc.prems(1) by (simp_all add: schedulerState_def)
  have d1: "dynamicDuration ?a s1 = Fin d"
    using Suc.prems(2) f(3) by (simp add: dynamicDuration_def)
  have le1: "rat_of_nat (patternTimer s1 + n) \<le> d" using Suc.prems(3) f(2) by simp
  from Suc.IH [OF f(1) d1 le1, of k1]
  obtain s' k' where rest: "frames M (replicate n (dataArray, bufferLength)) (s1, k1) = Some (s', k')"
     "schedulerState s' = schedulerState (s1\<lparr>patternTimer := patternTimer s1 + n\<rparr>)"
     "completed M (replicate n (dataArray, bufferLength)) (s1, k1) = 0"
    by blast
  have "schedulerState s' = schedulerState (s\<lparr>patternTimer := patternTimer s + Suc n\<rparr>)"
    using rest(2) ss by (simp add: schedulerState_def)
  then show ?case using rest(1,3) f(1) Suc.prems(1) by (simp add: r)
qed

lemma transit_run:
  assumes "isTransitioning s" and "transitionProgress s = Fin p" and "transitionSpeed s = Fin v"
    and "fst (audioMetrics dataArray bufferLength) = Fin a"
    and "p + of_nat n * (v * (1 + a * (1 / 2))) < 1" and "0 \<le> v * (1 + a * (1 / 2))"
  shows "\<exists>s' k'. frames M (replicate n (dataArray, bufferLength)) (s, k) = Some (s', k') \<and>
     schedulerState s' = schedulerState (s\<lparr>patternTimer := patternTimer s + n,
        transitionProgress := Fin (p + of_nat n * (v * (1 + a * (1 / 2))))\<rparr>) \<and>
     completed M (replicate n (dataArray, bufferLength)) (s, k) = 0"
  using assms(1,2,3,5)
proof (induction n arbitrary: s k p)
  case 0
  then have "s\<lparr>patternTimer := patternTimer s + 0, transitionProgress := Fin (p + of_nat 0 * (v * (1 + a * (1 / 2))))\<rparr> = s"
    by simp
  then show ?case by simp
next
  case (Suc n)
  let ?i = "v * (1 + a * (1 / 2))"
  have e: "p + of_nat (Suc n) * ?i = (p + ?i) + of_nat n * ?i" by (simp add: algebra_simps)
  have "0 \<le> of_nat n * ?i" using assms(6) by simp
  with Suc.prems(4) have lt: "p + ?i < 1" unfolding e by linarith
  note u = transit_step [OF Suc.prems(1,2,3) lt]
  from render_schedulerState [of M dataArray bufferLength s k]
  obtain s1 k1 where r: "render M dataArray bufferLength (s, k) = Some (s1, k1)"
    and ss: "schedulerState s1 = schedulerState (s\<lparr>patternTimer := patternTimer s + 1,
        transitionProgress := Fin (p + ?i)\<rparr>)"
    unfolding assms(4) u by blast
  from ss have f: "isTransitioning s1" "transitionProgress s1 = Fin (p + ?i)" "transitionSpeed s1 = Fin v"
    using Suc.prems(1,3) by (simp_all add: schedulerState_def)
  have lt1: "(p + ?i) + of_nat n * ?i < 1" using Suc.prems(4) unfolding e .
  from Suc.IH [OF f lt1, of k1]
  obtain s' k' where rest: "frames M (replicate n (dataArray, bufferLength)) (s1, k1) = Some (s', k')"
     "schedulerState s' = schedulerState (s1\<lparr>patternTimer := patternTimer s1 + n,
        transitionProgress := Fin ((p + ?i) + of_nat n * ?i)\<rparr>)"
     "completed M (replicate n (dataArray, bufferLength)) (s1, k1) = 0"
    by blast
  have "schedulerState s' = schedulerState (s\<lparr>patternTimer := patternTimer s + Suc n,
        transitionProgress := Fin (p + of_nat (Suc n) * ?i)\<rparr>)"
    using rest(2) ss unfolding e by (simp add: schedulerState_def)
  then show ?case using rest(1,3) f(1) by (simp add: r)
qed

text \<open>
  One full cycle under the loudest input: 400 steady frames, the frame that begins the
  transition, 33 frames of cross-fade at \<open>0.03\<close> per frame, and the frame that commits.
\<close>

lemma loud_cycle:
  assumes "7 \<le> N" and "\<not> isTransitioning s" and "patternTimer s = 0"
    and "patternDuration s = 600" and "transitionSpeed s = 0.02"
  shows "\<exists>s' k'. frames M (replicate 435 (replicate N 255, N)) (s, k) = Some (s', k') \<and>
     schedulerState s' = schedulerState (s\<lparr>transitionProgress := 0,
        patternIndex := (patternIndex s + 1) mod 10,
        nextPattern := patternSequence ! ((patternIndex s + 1) mod 10),
        currentPattern := patternSequence ! ((patternIndex s + 1) mod 10)\<rparr>) \<and>
     completed M (replicate 435 (replicate N 255, N)) (s, k) = 1"
proof -
  let ?d = "replicate N (255::8 word)"
  let ?x = "(?d, N)"
  have a: "fst (audioMetrics ?d N) = Fin 1"
    using loud_metrics [OF assms(1)] by (simp add: one_number_def)
  have speed: "transitionSpeed s = Fin (2 / 100)" using assms(5) by (simp add: number_ops)
  have dur: "patternDuration s = Fin 600" using assms(4) by (simp add: number_ops)
  have d: "dynamicDuration (fst (audioMetrics ?d N)) s = Fin 400"
    by (simp add: a dur dynamicDuration_def number_ops)
  \<comment> \<open>400 steady frames\<close>
  have "rat_of_nat (patternTimer s + 400) \<le> 400" using assms(3) by simp
  from steady_run [OF assms(2) d this, of M k]
  obtain s1 k1 where f1: "frames M (replicate 400 ?x) (s, k) = Some (s1, k1)"
    and ss1: "schedulerState s1 = schedulerState (s\<lparr>patternTimer := 400\<rparr>)"
    and c1: "completed M (replicate 400 ?x) (s, k) = 0"
    using assms(3) by auto
  \<comment> \<open>the transition begins\<close>
  define B where "B = s\<lparr>patternTimer := 401, isTransitioning := True, transitionProgress := 0,
      patternIndex := (patternIndex s + 1) mod 10,
      nextPattern := patternSequence ! ((patternIndex s + 1) mod 10)\<rparr>"
  have "updatePatternTransition (Fin 1) (s\<lparr>patternTimer := 400\<rparr>) =
      s\<lparr>patternTimer := 400\<rparr>\<lparr>patternTimer := patternTimer (s\<lparr>patternTimer := 400\<rparr>) + 1,
        isTransitioning := True, transitionProgress := 0,
        patternIndex := (patternIndex (s\<lparr>patternTimer := 400\<rparr>) + 1) mod 10,
        nextPattern := patternSequence ! ((patternIndex (s\<lparr>patternTimer := 400\<rparr>) + 1) mod 10)\<rparr>"
    by (rule begin_step [where d = 400])
       (simp_all add: assms(2) dur dynamicDuration_def number_ops)
  then have uB: "updatePatternTransition (Fin 1) (s\<lparr>patternTimer := 400\<rparr>) = B"
    by (simp add: B_def)
  from one_frame [of M ?d N s1 k1]
  obtain s2 k2 where f2: "frames M [?x] (s1, k1) = Some (s2, k2)"
    and ss2: "schedulerState s2 = schedulerState (updatePatternTransition (Fin 1) s1)"
    and c2: "completed M [?x] (s1, k1) =
       (if isTransitioning s1 \<and> \<not> isTransitioning (updatePatternTransition (Fin 1) s1) then 1 else 0)"
    unfolding a by blast
  have ss2': "schedulerState s2 = schedulerState B"
    using ss2 schedulerState_step [OF ss1, of "Fin 1"] by (simp add: uB)
  have "\<not> isTransitioning s1" using isTransitioning_cong [OF ss1] assms(2) by simp
  with c2 have c2': "completed M [?x] (s1, k1) = 0" by simp
  \<comment> \<open>33 frames of cross-fade\<close>
  have t2: "isTransitioning s2" "transitionProgress s2 = Fin 0" "transitionSpeed s2 = Fin (2 / 100)"
    "patternTimer s2 = 401"
    using ss2' speed by (simp_all add: schedulerState_def B_def zero_number_def)
  have "(0::rat) + of_nat 33 * (2 / 100 * (1 + 1 * (1 / 2))) < 1" by simp
  from transit_run [OF t2(1,2,3) a this, of M k2]
  obtain s3 k3 where f3: "frames M (replicate 33 ?x) (s2, k2) = Some (s3, k3)"
    and ss3: "schedulerState s3 = schedulerState (s2\<lparr>patternTimer := patternTimer s2 + 33,
        transitionProgress := Fin (0 + of_nat 33 * (2 / 100 * (1 + 1 * (1 / 2))))\<rparr>)"
    and c3: "completed M (replicate 33 ?x) (s2, k2) = 0"
    by auto
  define C where "C = B\<lparr>patternTimer := 434, transitionProgress := Fin (99 / 100)\<rparr>"
  have ss3': "schedulerState s3 = schedulerState C"
    using ss3 ss2' t2(4) by (simp add: schedulerState_def C_def)
  \<comment> \<open>the transition commits\<close>
  have uC: "updatePatternTransition (Fin 1) C =
      C\<lparr>patternTimer := 0, transitionProgress := 0, isTransitioning := False,
        currentPattern := nextPattern C\<rparr>"
    by (rule commit_step [where p = "99 / 100" and v = "2 / 100"])
       (simp_all add: C_def B_def speed)
  from one_frame [of M ?d N s3 k3]
  obtain s4 k4 where f4: "frames M [?x] (s3, k3) = Some (s4, k4)"
    and ss4: "schedulerState s4 = schedulerState (updatePatternTransition (Fin 1) s3)"
    and c4: "completed M [?x] (s3, k3) =
       (if isTransitioning s3 \<and> \<not> isTransitioning (updatePatternTransition (Fin 1) s3) then 1 else 0)"
    unfolding a by blast
  note st = schedulerState_step [OF ss3', of "Fin 1"]
  have ss4': "schedulerState s4 = schedulerState (C\<lparr>patternTimer := 0, transitionProgress := 0,
        isTransitioning := False, currentPattern := nextPattern C\<rparr>)"
    using ss4 st by (simp add: uC)
  have "isTransitioning s3" using isTransitioning_cong [OF ss3'] by (simp add: C_def B_def)
  moreover have "\<not> isTransitioning (updatePatternTransition (Fin 1) s3)"
    using isTransitioning_cong [OF st] by (simp add: uC)
  ultimately have c4': "completed M [?x] (s3, k3) = 1" using c4 by simp
  \<comment> \<open>the four parts in a row\<close>
  have split: "replicate 435 ?x = replicate 400 ?x @ [?x] @ replicate 33 ?x @ [?x]"
  proof -
    have "replicate 435 ?x = replicate (400 + (1 + (33 + 1))) ?x" by simp
    also have "\<dots> = replicate 400 ?x @ replicate 1 ?x @ replicate 33 ?x @ replicate 1 ?x"
      by (simp only: replicate_add)
    finally show ?thesis by simp
  qed
  note r34 = run_append [OF f3 f4]
  note r234 = run_append [OF f2 r34(1)]
  note r1234 = run_append [OF f1 r234(1)]
  have fr: "frames M (replicate 435 ?x) (s, k) = Some (s4, k4)"
    unfolding split by (rule r1234(1))
  have co: "completed M (replicate 435 ?x) (s, k) = 1"
    unfolding split r1234(2) r234(2) r34(2) c1 c2' c3 c4' by simp
  have "schedulerState s4 = schedulerState (s\<lparr>transitionProgress := 0,
        patternIndex := (patternIndex s + 1) mod 10,
        nextPattern := patternSequence ! ((patternIndex s + 1) mod 10),
        currentPattern := patternSequence ! ((patternIndex s + 1) mod 10)\<rparr>)"
    using ss4' assms(2,3) by (simp add: schedulerState_def C_def B_def)
  with fr co show ?thesis by blast
qed

lemma loud_cycles:
  assumes "7 \<le> N" and "\<not> isTransitioning s" and "patternTimer s = 0"
    and "patternDuration s = 600" and "transitionSpeed s = 0.02" and "patternIndex s < 10"
  shows "\<exists>s' k'. frames M (replicate (c * 435) (replicate N 255, N)) (s, k) = Some (s', k') \<and>
     \<not> isTransitioning s' \<and> patternTimer s' = 0 \<and> patternDuration s' = 600 \<and>
     transitionSpeed s' = 0.02 \<and> patternIndex s' = (patternIndex s + c) mod 10 \<and>
     completed M (replicate (c * 435) (replicate N 255, N)) (s, k) = c"
  using assms(2-)
proof (induction c arbitrary: s k)
  case 0
  then show ?case by simp
next
  case (Suc c)
  let ?x = "(replicate N (255::8 word), N)"
  from loud_cycle [OF assms(1) Suc.prems(1-4), of M k]
  obtain s1 k1 where f1: "frames M (replicate 435 ?x) (s, k) = Some (s1, k1)"
    and ss: "schedulerState s1 = schedulerState (s\<lparr>transitionProgress := 0,
        patternIndex := (patternIndex s + 1) mod 10,
        nextPattern := patternSequence ! ((patternIndex s + 1) mod 10),
        currentPattern := patternSequence ! ((patternIndex s + 1) mod 10)\<rparr>)"
    and c1: "completed M (replicate 435 ?x) (s, k) = 1"
    by blast
  from ss Suc.prems have p1: "\<not> isTransitioning s1" "patternTimer s1 = 0" "patternDuration s1 = 600"
     "transitionSpeed s1 = 0.02" "patternIndex s1 = (patternIndex s + 1) mod 10"
    by (simp_all add: schedulerState_def)
  have "patternIndex s1 < 10" using p1(5) by simp
  from Suc.IH [OF p1(1-4) this, of k1]
  obtain s' k' where f2: "frames M (replicate (c * 435) ?x) (s1, k1) = Some (s', k')"
    and q: "\<not> isTransitioning s'" "patternTimer s' = 0" "patternDuration s' = 600"
      "transitionSpeed s' = 0.02" "patternIndex s' = (patternIndex s1 + c) mod 10"
      "completed M (replicate (c * 435) ?x) (s1, k1) = c"
    by blast
  have split: "replicate (Suc c * 435) ?x = replicate 435 ?x @ replicate (c * 435) ?x"
    by (simp add: replicate_add)
  note r = run_append [OF f1 f2]
  have "patternIndex s' = (patternIndex s + Suc c) mod 10"
    using q(5) p1(5) by (simp add: mod_simps)
  moreover have "completed M (replicate (Suc c * 435) ?x) (s, k) = Suc c"
    unfolding split r(2) by (simp add: c1 q(6))
  moreover have "frames M (replicate (Suc c * 435) ?x) (s, k) = Some (s', k')"
    unfolding split by (rule r(1))
  ultimately show ?case using q(1-4) by blast
qed

section \<open>Frames on a drawing surface\<close>


text \<open>
  On a surface with pixels whose other calls raise nothing, a renderer ends in the state
  that \<open>renderPattern\<close> describes.
\<close>

lemma renderPattern_canvas_accepted:
  assumes "0 < width s" and "0 < height s" and "\<And>p a b m t w. C p a b m t w = None"
  shows "renderPattern_canvas C M pattern a b m t (s, k) =
           map_option Inr (renderPattern M pattern a b m t (s, k))"
  using assms by (simp add: renderPattern_canvas_def createImageData_def)

text \<open>The scheduler leaves the dimensions alone, and outside a transition the active pattern.\<close>

lemma updatePatternTransition_surface:
  "width (updatePatternTransition a s) = width s"
  "height (updatePatternTransition a s) = height s"
  by (simp_all add: updatePatternTransition_cases)





text \<open>
  The functions \<open>render\<close> and \<open>frames\<close> describe the frames that the drawing surface lets
  run to their end: on a surface with pixels whose other calls raise nothing, \<open>render\<close>
  ends in the state they give.
\<close>

lemma render_canvas_accepted:
  assumes "0 < width s" and "0 < height s" and "\<And>p a b m t w. C p a b m t w = None"
  shows "render_canvas C M dataArray bufferLength (s, k) =
           map_option Inr (render M dataArray bufferLength (s, k))"
proof -
  obtain a b m t where am: "audioMetrics dataArray bufferLength = (a, b, m, t)"
    by (metis prod_cases4)
  have a: "a \<noteq> PInf" using audioIntensity_not_PInf [of dataArray bufferLength] by (simp add: am)
  define u where "u = updatePatternTransition a
     (s\<lparr>time := time s + 1, hueBase := (hueBase s + 0.3 + b * 1.5) mod 360\<rparr>)"
  have rc: "render_canvas C M dataArray bufferLength (s, k) =
     (if isTransitioning u then
        (case renderPattern_canvas C M (currentPattern u) a b m t (u, k) of
           None \<Rightarrow> None
         | Some (Inl e) \<Rightarrow> Some (Inl e)
         | Some (Inr (s1, k1)) \<Rightarrow> renderPattern_canvas C M (nextPattern s1) a b m t (s1, k1))
      else renderPattern_canvas C M (currentPattern u) a b m t (u, k))"
    by (simp add: render_canvas_def am Let_def u_def)
  have r: "render M dataArray bufferLength (s, k) =
     (if isTransitioning u then
        Option.bind (renderPattern M (currentPattern u) a b m t (u, k))
          (\<lambda>(s1, k1). renderPattern M (nextPattern s1) a b m t (s1, k1))
      else renderPattern M (currentPattern u) a b m t (u, k))"
    by (simp add: render_def am Let_def u_def)
  have w: "0 < width u" "0 < height u"
    using assms(1,2) by (simp_all add: u_def updatePatternTransition_surface)
  have one: "renderPattern_canvas C M p a b m t (u, k) =
               map_option Inr (renderPattern M p a b m t (u, k))" for p
    by (rule renderPattern_canvas_accepted [OF w assms(3)])
  from renderPattern_Some [OF a, of M "currentPattern u" b m t u k]
  obtain ps bs vs z re im k1 where p1: "renderPattern M (currentPattern u) a b m t (u, k) =
     Some (u\<lparr>particles := ps, bubbles := bs, voronoiSeeds := vs,
             fractalZoom := z, juliaC_re := re, juliaC_im := im\<rparr>, k1)"
    by blast
  define u1 where "u1 = u\<lparr>particles := ps, bubbles := bs, voronoiSeeds := vs,
             fractalZoom := z, juliaC_re := re, juliaC_im := im\<rparr>"
  have w1: "0 < width u1" "0 < height u1" using w by (simp_all add: u1_def)
  have two: "renderPattern_canvas C M p a b m t (u1, k1) =
               map_option Inr (renderPattern M p a b m t (u1, k1))" for p
    by (rule renderPattern_canvas_accepted [OF w1 assms(3)])
  show ?thesis
    unfolding rc r one p1 [folded u1_def] by (simp add: two)
qed



section \<open>Audio feature extraction: bands without samples\<close>

lemma getFrequencyBandIntensity_no_samples:
  "\<lfloor>of_nat bufferLength * startRatio\<rfloor> = \<lfloor>of_nat bufferLength * endRatio\<rfloor> \<Longrightarrow>
   getFrequencyBandIntensity dataArray bufferLength startRatio endRatio = NaN"
  by (simp add: getFrequencyBandIntensity_def Let_def number_ops)

text \<open>
  C1. The claim is that a band without samples, and the overall mean of an empty array,
  give the intensity \<open>0\<close>. The source divides without a guard: with no sample the sum is
  \<open>0\<close> and the width is \<open>0\<close>, and \<open>0 / 0\<close> is \<open>NaN\<close>, which \<open>Math.min(1, NaN)\<close> keeps.
  For the empty array with \<open>bufferLength = 0\<close> all four intensities are \<open>NaN\<close>; for an
  array of six entries the bass band \<open>[0, floor(6 * 0.15)) = [0, 0)\<close> is empty and the
  bass intensity is \<open>NaN\<close>, while the other three are numbers.
\<close>

theorem audioMetrics_no_samples_NaN:
  "audioMetrics [] 0 = (NaN, NaN, NaN, NaN) \<and>
   audioMetrics [9, 9, 9, 9, 9, 9] 6 = (Fin (9 / 128), NaN, Fin (9 / 128), Fin (9 / 128))"
  by code_simp

section \<open>The pattern scheduler\<close>

text \<open>
  C2, as amended. One call of \<open>updatePatternTransition\<close> applies exactly one of four rules.
  The timer is incremented before the branch, on every frame. When transitioning, the
  progress grows by \<open>transitionSpeed * (1 + audioIntensity * 0.5)\<close>; once it is \<open>\<ge> 1\<close> the
  transition is committed (\<open>currentPattern = nextPattern\<close>, progress, timer and flag
  reset), otherwise the incremented timer and progress are kept. When not transitioning
  and the incremented timer exceeds \<open>max(300, patternDuration - audioIntensity * 200)\<close>, a
  transition begins: the cyclic index advances modulo 10, \<open>nextPattern\<close> is the pattern at
  that index, the flag is set and the progress is \<open>0\<close>; otherwise only the timer counts.
\<close>

theorem updatePatternTransition_rule:
  "updatePatternTransition audioIntensity s =
     (if isTransitioning s then
        (if transitionProgress s + transitionSpeed s * (1 + audioIntensity * 0.5) \<ge> 1
         then s\<lparr>patternTimer := 0, transitionProgress := 0, isTransitioning := False,
                currentPattern := nextPattern s\<rparr>
         else s\<lparr>patternTimer := patternTimer s + 1,
                transitionProgress := transitionProgress s + transitionSpeed s * (1 + audioIntensity * 0.5)\<rparr>)
      else if num (patternTimer s + 1) > Math_max 300 (patternDuration s - audioIntensity * 200)
      then s\<lparr>patternTimer := patternTimer s + 1, isTransitioning := True, transitionProgress := 0,
             patternIndex := (patternIndex s + 1) mod 10,
             nextPattern := patternSequence ! ((patternIndex s + 1) mod 10)\<rparr>
      else s\<lparr>patternTimer := patternTimer s + 1\<rparr>)"
  by (simp only: updatePatternTransition_cases dynamicDuration_def)

text \<open>
  C2, counterexample. The claim has the timer incremented only when the engine is not
  transitioning. After 601 silent frames from the field initialisers the scheduler is
  transitioning with the timer at 601, and the next frame, which runs the transitioning
  branch without committing, leaves the timer at 602.
\<close>

theorem patternTimer_counts_while_transitioning:
  "isTransitioning ((updatePatternTransition 0 ^^ 601) initial_fields) \<and>
   patternTimer ((updatePatternTransition 0 ^^ 601) initial_fields) = 601 \<and>
   patternTimer (updatePatternTransition 0 ((updatePatternTransition 0 ^^ 601) initial_fields)) = 602"
  unfolding silent_601
  by (simp add: updatePatternTransition_cases initial_fields_def number_ops)

text \<open>
  C3, counterexample. With every entry at 255 the overall intensity is \<open>1\<close>, and with the
  default \<open>patternDuration = 600\<close> the dynamic duration is \<open>max(300, 600 - 200) = 400\<close>, not
  the floor \<open>300\<close>: after 301 frames the scheduler has not begun a transition.
\<close>

theorem loud_dynamicDuration_is_400:
  "fst (audioMetrics (replicate 8 255) 8) = 1 \<and>
   dynamicDuration (fst (audioMetrics (replicate 8 255) 8)) initial_fields = Fin 400 \<and>
   dynamicDuration (fst (audioMetrics (replicate 8 255) 8)) initial_fields \<noteq> Fin 300 \<and>
   \<not> isTransitioning ((updatePatternTransition (fst (audioMetrics (replicate 8 255) 8)) ^^ 301) initial_fields)"
proof -
  have m: "audioMetrics (replicate 8 255) 8 = (1, 1, 1, 1)" by (rule loud_metrics) simp
  have d: "dynamicDuration 1 initial_fields = Fin 400"
    by (simp add: dynamicDuration_def initial_fields_def number_ops)
  have "(updatePatternTransition 1 ^^ 301) initial_fields =
      initial_fields\<lparr>patternTimer := patternTimer initial_fields + 301\<rparr>"
    by (rule steady_funpow [OF _ d]) (simp_all add: initial_fields_def)
  then have "\<not> isTransitioning ((updatePatternTransition 1 ^^ 301) initial_fields)"
    by (simp add: initial_fields_def)
  with m d show ?thesis by simp
qed

text \<open>
  C3, as amended. For an array of at least 7 entries, all 255, the four intensities are
  \<open>1\<close> and the dynamic duration is \<open>max(300, patternDuration - 200)\<close>; with the default
  duration 600 it is 400. A steady phase that starts with the timer at \<open>0\<close> then lasts 400
  frames: after any \<open>n \<le> 400\<close> frames the engine is not transitioning and the timer is
  \<open>n\<close>, and the frame number 401 begins the transition.
\<close>

theorem loud_input_steady_phase:
  assumes "7 \<le> N" and "\<not> isTransitioning s" and "patternTimer s = 0"
    and "patternDuration s = 600" and "n \<le> 400"
  shows "audioMetrics (replicate N 255) N = (1, 1, 1, 1) \<and>
     dynamicDuration 1 (s\<lparr>patternDuration := Fin d\<rparr>) = Fin (max 300 (d - 200)) \<and>
     dynamicDuration 1 s = 400 \<and>
     (\<exists>s' k'. frames M (replicate n (replicate N 255, N)) (s, k) = Some (s', k') \<and>
        \<not> isTransitioning s' \<and> patternTimer s' = n) \<and>
     (\<exists>s' k'. frames M (replicate 401 (replicate N 255, N)) (s, k) = Some (s', k') \<and>
        isTransitioning s')"
proof -
  have m: "audioMetrics (replicate N 255) N = (1, 1, 1, 1)" by (rule loud_metrics [OF assms(1)])
  have d: "dynamicDuration (fst (audioMetrics (replicate N 255) N)) s = Fin 400"
    using assms(4) by (simp add: m dynamicDuration_def number_ops)
  have le: "rat_of_nat (patternTimer s + n) \<le> 400" using assms(3,5) by simp
  from steady_frames [OF assms(2) d le, of M k]
  have steady: "\<exists>s' k'. frames M (replicate n (replicate N 255, N)) (s, k) = Some (s', k') \<and>
        \<not> isTransitioning s' \<and> patternTimer s' = n"
    using assms(3) by auto
  have "(401::nat) = Suc 400" by simp
  moreover from begin_frames [OF assms(2) d, of 400 M k]
  have "\<exists>s' k'. frames M (replicate (Suc 400) (replicate N 255, N)) (s, k) = Some (s', k') \<and>
        isTransitioning s'"
    using assms(3) by auto
  ultimately have started: "\<exists>s' k'. frames M (replicate 401 (replicate N 255, N)) (s, k) = Some (s', k') \<and>
        isTransitioning s'"
    by (simp only:)
  from d have "dynamicDuration 1 s = 400" by (simp add: m numeral_number)
  with m steady started loud_dynamicDuration show ?thesis by blast
qed

text \<open>
  C3, witness: an array of 8 entries, the field initialisers as the state, 400 frames.
\<close>

theorem loud_input_steady_phase_witness:
  "7 \<le> (8::nat) \<and> \<not> isTransitioning initial_fields \<and> patternTimer initial_fields = 0 \<and>
   patternDuration initial_fields = 600 \<and> (400::nat) \<le> 400 \<and>
   audioMetrics (replicate 8 255) 8 = (1, 1, 1, 1) \<and>
   dynamicDuration 1 (initial_fields\<lparr>patternDuration := Fin 450\<rparr>) = Fin (max 300 (450 - 200)) \<and>
   dynamicDuration 1 initial_fields = 400 \<and>
   (\<exists>s' k'. frames example_Math (replicate 400 (replicate 8 255, 8)) (initial_fields, 0) = Some (s', k') \<and>
        \<not> isTransitioning s' \<and> patternTimer s' = 400) \<and>
   (\<exists>s' k'. frames example_Math (replicate 401 (replicate 8 255, 8)) (initial_fields, 0) = Some (s', k') \<and>
        isTransitioning s')"
proof -
  have h: "7 \<le> (8::nat)" "\<not> isTransitioning initial_fields" "patternTimer initial_fields = 0"
    "patternDuration initial_fields = 600" "(400::nat) \<le> 400"
    by (simp_all add: initial_fields_def)
  from loud_input_steady_phase [OF h, of 450 example_Math 0] h show ?thesis by blast
qed

section \<open>The hue base\<close>

text \<open>
  C4. Every call of \<open>render\<close> returns and sets \<open>hueBase\<close> to
  \<open>(hueBase + 0.3 + bassIntensity * 1.5) % 360\<close>. Starting from the constructed engine,
  where \<open>hueBase = 0\<close>, after any number of calls \<open>hueBase\<close> is a number in \<open>[0, 360)\<close>. An
  input is valid when its bass band \<open>[0, floor(bufferLength * 0.15))\<close> holds a sample,
  that is when \<open>bufferLength \<ge> 7\<close>; the entries are bytes by their type.
\<close>

theorem hueBase_in_range:
  assumes "constructor M canvas_width canvas_height True k0 = Inr w0"
    and "\<forall>(dataArray, bufferLength) \<in> set inputs. 7 \<le> bufferLength"
  shows "(\<exists>s' k' h. frames M inputs w0 = Some (s', k') \<and> hueBase s' = Fin h \<and> 0 \<le> h \<and> h < 360) \<and>
         (\<exists>s' k'. render M dataArray bufferLength (s, k) = Some (s', k') \<and>
            hueBase s' = (hueBase s + 0.3 + fst (snd (audioMetrics dataArray bufferLength)) * 1.5) mod 360)"
proof -
  obtain s0 k1 where w0: "w0 = (s0, k1)" by (cases w0)
  from constructor_Inr [OF assms(1) [unfolded w0]]
  have "hueBase s0 = Fin 0" by (auto simp: initial_fields_def zero_number_def)
  from frames_hue [OF assms(2) this, of M k1] render_hueBase [of M dataArray bufferLength s k]
  show ?thesis by (simp add: w0)
qed

text \<open>
  C4, witness: the engine constructed on an empty canvas, then two frames of 8 and 7
  entries.
\<close>

theorem hueBase_in_range_witness:
  "constructor example_Math 0 0 True 0 = Inr (projr (constructor example_Math 0 0 True 0)) \<and>
   (7::nat) \<le> 8 \<and> (7::nat) \<le> 7 \<and>
   (\<exists>s' k' h. frames example_Math [(replicate 8 200, 8), ([1, 2, 3, 4, 5, 6, 7], 7)]
        (projr (constructor example_Math 0 0 True 0)) = Some (s', k') \<and>
      hueBase s' = Fin h \<and> 0 \<le> h \<and> h < 360) \<and>
   (\<exists>s' k'. render example_Math (replicate 8 200) 8 (initial_fields, 0) = Some (s', k') \<and>
      hueBase s' = (hueBase initial_fields + 0.3 +
        fst (snd (audioMetrics (replicate 8 200) 8)) * 1.5) mod 360)"
proof -
  have h1: "constructor example_Math 0 0 True 0 = Inr (projr (constructor example_Math 0 0 True 0))"
    by (simp add: constructor_def)
  have h2: "\<forall>(dataArray, bufferLength) \<in> set [(replicate 8 (200::8 word), 8::nat), ([1, 2, 3, 4, 5, 6, 7], 7)].
      7 \<le> bufferLength"
    by simp
  note c = hueBase_in_range [OF h1 h2, of "replicate 8 200" 8 initial_fields 0]
  show ?thesis
  proof (intro conjI)
    show "constructor example_Math 0 0 True 0 = Inr (projr (constructor example_Math 0 0 True 0))"
      by (rule h1)
    show "\<exists>s' k' h. frames example_Math [(replicate 8 200, 8), ([1, 2, 3, 4, 5, 6, 7], 7)]
        (projr (constructor example_Math 0 0 True 0)) = Some (s', k') \<and>
      hueBase s' = Fin h \<and> 0 \<le> h \<and> h < 360"
      by (rule conjunct1 [OF c])
    show "\<exists>s' k'. render example_Math (replicate 8 200) 8 (initial_fields, 0) = Some (s', k') \<and>
      hueBase s' = (hueBase initial_fields + 0.3 +
        fst (snd (audioMetrics (replicate 8 200) 8)) * 1.5) mod 360"
      by (rule conjunct2 [OF c])
  qed simp_all
qed

section \<open>The pattern cycle\<close>

text \<open>
  C5. From the constructed engine, whatever the audio input and whatever the random
  source, every run of frames returns, and after it the active pattern is element
  \<open>c mod 10\<close> of the fixed sequence of ten patterns, where \<open>c\<close> is the number of transitions
  completed during the run. So the active pattern is the original one exactly when the
  number of completed transitions is a multiple of 10, in particular after 10 of them
  and after none of 1 to 9. Two engines constructed with different random sources, seeds
  and canvas sizes and fed the same input have the same scheduler state and the same
  number of completed transitions: nothing random enters the succession of patterns.
\<close>

theorem pattern_cycle:
  assumes "constructor M canvas_width canvas_height True k0 = Inr w0"
    and "constructor M' canvas_width' canvas_height' True k0' = Inr w0'"
  shows "\<exists>s' k' t' j'. frames M inputs w0 = Some (s', k') \<and> frames M' inputs w0' = Some (t', j') \<and>
     currentPattern s' = patternSequence ! (completed M inputs w0 mod 10) \<and>
     (currentPattern s' = currentPattern (fst w0)) = (completed M inputs w0 mod 10 = 0) \<and>
     schedulerState t' = schedulerState s' \<and>
     completed M' inputs w0' = completed M inputs w0"
proof -
  obtain s0 k1 where w0: "w0 = (s0, k1)" by (cases w0)
  obtain t0 j1 where w0': "w0' = (t0, j1)" by (cases w0')
  from constructor_Inr [OF assms(1) [unfolded w0]] constructor_Inr [OF assms(2) [unfolded w0']]
  have init: "schedulerState t0 = schedulerState s0" "on_cycle 0 s0" "currentPattern s0 = Rays"
    by (auto simp: schedulerState_def on_cycle_def initial_fields_def patternSequence_def)
  from cycle_frames [OF init(2,1), of M inputs k1 M' j1]
  obtain s' k' t' j' where r: "frames M inputs (s0, k1) = Some (s', k')"
      "frames M' inputs (t0, j1) = Some (t', j')"
      "on_cycle (completed M inputs (s0, k1)) s'"
      "schedulerState t' = schedulerState s'"
      "completed M' inputs (t0, j1) = completed M inputs (s0, k1)"
    by auto
  have cur: "currentPattern s' = patternSequence ! (completed M inputs (s0, k1) mod 10)"
    using r(3) by (simp add: on_cycle_def)
  have "(currentPattern s' = Rays) = (completed M inputs (s0, k1) mod 10 = 0)"
    unfolding cur by (rule patternSequence_first) simp
  with r cur init(3) show ?thesis unfolding w0 w0' by auto
qed

text \<open>
  C5, witness: two engines, one on an empty canvas and one on a canvas of 800 by 600
  with five random numbers already drawn, run on 4350 frames of an array of eight
  entries 255. Each cycle takes 435 frames (400 steady, one that begins the transition,
  34 of cross-fade), so exactly 10 transitions are completed, and the active pattern is
  the first of the sequence again, on both engines.
\<close>

theorem pattern_cycle_witness:
  "constructor example_Math 0 0 True 0 = Inr (projr (constructor example_Math 0 0 True 0)) \<and>
   constructor example_Math 800 600 True 5 = Inr (projr (constructor example_Math 800 600 True 5)) \<and>
   (\<exists>s' k' t' j'.
      frames example_Math (replicate 4350 (replicate 8 255, 8))
        (projr (constructor example_Math 0 0 True 0)) = Some (s', k') \<and>
      frames example_Math (replicate 4350 (replicate 8 255, 8))
        (projr (constructor example_Math 800 600 True 5)) = Some (t', j') \<and>
      completed example_Math (replicate 4350 (replicate 8 255, 8))
        (projr (constructor example_Math 0 0 True 0)) = 10 \<and>
      completed example_Math (replicate 4350 (replicate 8 255, 8))
        (projr (constructor example_Math 800 600 True 5)) = 10 \<and>
      currentPattern s' = Rays \<and> currentPattern t' = Rays \<and>
      currentPattern s' = currentPattern (fst (projr (constructor example_Math 0 0 True 0))))"
proof -
  let ?run = "replicate 4350 (replicate 8 (255::8 word), 8::nat)"
  have h1: "constructor example_Math 0 0 True 0 = Inr (projr (constructor example_Math 0 0 True 0))"
    by (simp add: constructor_def)
  have h2: "constructor example_Math 800 600 True 5 = Inr (projr (constructor example_Math 800 600 True 5))"
    by (simp add: constructor_def)
  obtain s0 k1 where w0: "projr (constructor example_Math 0 0 True 0) = (s0, k1)"
    by (cases "projr (constructor example_Math 0 0 True 0)")
  from constructor_Inr [OF h1 [unfolded w0]]
  have init: "\<not> isTransitioning s0" "patternTimer s0 = 0" "patternDuration s0 = 600"
    "transitionSpeed s0 = 0.02" "patternIndex s0 < 10"
    by (auto simp: initial_fields_def)
  have n: "(10::nat) * 435 = 4350" by simp
  from loud_cycles [OF _ init, of 8 example_Math 10 k1]
  have ten: "completed example_Math ?run (s0, k1) = 10"
    unfolding n by auto
  from pattern_cycle [OF h1 h2, of ?run]
  obtain s' k' t' j' where r:
      "frames example_Math ?run (projr (constructor example_Math 0 0 True 0)) = Some (s', k')"
      "frames example_Math ?run (projr (constructor example_Math 800 600 True 5)) = Some (t', j')"
      "currentPattern s' = patternSequence !
         (completed example_Math ?run (projr (constructor example_Math 0 0 True 0)) mod 10)"
      "(currentPattern s' = currentPattern (fst (projr (constructor example_Math 0 0 True 0)))) =
         (completed example_Math ?run (projr (constructor example_Math 0 0 True 0)) mod 10 = 0)"
      "schedulerState t' = schedulerState s'"
      "completed example_Math ?run (projr (constructor example_Math 800 600 True 5)) =
       completed example_Math ?run (projr (constructor example_Math 0 0 True 0))"
    by (elim exE conjE) (rule that)
  have c10: "completed example_Math ?run (projr (constructor example_Math 0 0 True 0)) = 10"
    using ten by (simp add: w0)
  have cur: "currentPattern s' = Rays" using r(3) unfolding c10 by (simp add: patternSequence_def)
  have cur': "currentPattern t' = Rays" using r(5) cur by (simp add: schedulerState_def)
  have orig: "currentPattern s' = currentPattern (fst (projr (constructor example_Math 0 0 True 0)))"
    using r(4) unfolding c10 by simp
  have c10': "completed example_Math ?run (projr (constructor example_Math 800 600 True 5)) = 10"
    using r(6) c10 by simp
  show ?thesis
    apply (intro conjI)
      apply (rule h1)
     apply (rule h2)
    apply (rule exI [of _ s'], rule exI [of _ k'], rule exI [of _ t'], rule exI [of _ j'])
    apply (intro conjI)
          apply (rule r(1))
         apply (rule r(2))
        apply (rule c10)
       apply (rule c10')
      apply (rule cur)
     apply (rule cur')
    apply (rule orig)
    done
qed

section \<open>Resize, then render\<close>




section \<open>The fractal renderer\<close>



section \<open>What resize changes\<close>

text \<open>
  C9. \<open>resize(w, h)\<close> sets the width, the height and the center, and replaces the three
  pools; every other field is left as it was: the scheduler state, \<open>time\<close>, \<open>hueBase\<close> and
  the fractal parameters. The new pools are built afresh: they are the same from whatever
  state \<open>resize\<close> is called, so nothing of the old pools survives, and the particle pool
  has \<open>min(1200, floor(w * h / 800))\<close> entries.
\<close>

theorem resize_frame:
  "\<exists>ps bs vs k'.
     resize M w h (s, k) =
       (s\<lparr>width := w, height := h, centerX := num w / 2, centerY := num h / 2,
          particles := ps, bubbles := bs, voronoiSeeds := vs\<rparr>, k') \<and>
     resize M w h (t, k) =
       (t\<lparr>width := w, height := h, centerX := num w / 2, centerY := num h / 2,
          particles := ps, bubbles := bs, voronoiSeeds := vs\<rparr>, k') \<and>
     length ps = min 1200 (w * h div 800) \<and>
     schedulerState (fst (resize M w h (s, k))) = schedulerState s \<and>
     time (fst (resize M w h (s, k))) = time s \<and>
     hueBase (fst (resize M w h (s, k))) = hueBase s \<and>
     fractalZoom (fst (resize M w h (s, k))) = fractalZoom s \<and>
     fractalOffsetX (fst (resize M w h (s, k))) = fractalOffsetX s \<and>
     fractalOffsetY (fst (resize M w h (s, k))) = fractalOffsetY s \<and>
     juliaC_re (fst (resize M w h (s, k))) = juliaC_re s \<and>
     juliaC_im (fst (resize M w h (s, k))) = juliaC_im s"
proof -
  obtain ps bs vs k' where f: "fresh_pools M w h k = ((ps, bs, vs), k')"
    by (metis prod_cases3 surj_pair)
  have rs: "resize M w h (s, k) =
       (s\<lparr>width := w, height := h, centerX := num w / 2, centerY := num h / 2,
          particles := ps, bubbles := bs, voronoiSeeds := vs\<rparr>, k')"
    by (simp add: resize_eq f)
  have rt: "resize M w h (t, k) =
       (t\<lparr>width := w, height := h, centerX := num w / 2, centerY := num h / 2,
          particles := ps, bubbles := bs, voronoiSeeds := vs\<rparr>, k')"
    by (simp add: resize_eq f)
  have len: "length ps = min 1200 (w * h div 800)"
    using resize_particles [of M w h s k] by (simp add: rs)
  show ?thesis
    apply (rule exI [of _ ps], rule exI [of _ bs], rule exI [of _ vs], rule exI [of _ k'])
    apply (intro conjI)
              apply (rule rs)
             apply (rule rt)
            apply (rule len)
           apply (simp_all add: rs schedulerState_def)
    done
qed

section \<open>The life of a bubble\<close>

text \<open>
  C6. In every pool the engine builds, a rising bubble has the pop progress \<open>0\<close>. One
  pass of the bubbles pattern over such a pool updates every bubble and then drops
  exactly those whose pop progress has reached \<open>1\<close>. A popping bubble's pop progress
  grows by \<open>0.1 + trebleIntensity * 0.1\<close>, so it is removed in the first pass that brings
  it to \<open>1\<close>. A rising bubble moves, keeps the pop progress \<open>0\<close> and stays in the pool;
  after its step its age is one more, and it is popping exactly when that age exceeds
  \<open>maxAge\<close>, or it has left the surface upward (\<open>y < -2 * radius\<close>) or sideways
  (\<open>x < -radius\<close> or \<open>x > width + radius\<close>), or the treble intensity exceeds \<open>0.7\<close> and the
  random number drawn is above \<open>0.95\<close>. In particular a rising bubble whose age exceeds
  \<open>maxAge\<close> is popping after the pass.
\<close>

theorem bubble_lifecycle:
  assumes "\<forall>b\<in>set bs. \<not> b_popping b \<longrightarrow> b_popProgress b = 0"
  shows "\<exists>bs' k'. update_each M s t bs k = (bs', k') \<and> length bs' = length bs \<and>
     updateBubbles M s t (length bs) bs k = (filter (\<lambda>b. \<not> b_popProgress b \<ge> 1) bs', k') \<and>
     (\<forall>i<length bs.
        if b_popping (bs ! i)
        then bs' ! i = (bs ! i)\<lparr>b_popProgress := b_popProgress (bs ! i) + (0.1 + t * 0.1)\<rparr>
        else (\<exists>j. bs' ! i = fst (riseBubble M s t (bs ! i) j)) \<and> b_popProgress (bs' ! i) = 0 \<and>
             (b_age (bs ! i) > b_maxAge (bs ! i) \<longrightarrow> b_popping (bs' ! i))) \<and>
     (\<forall>b j. b_age (fst (riseBubble M s t b j)) = b_age b + 1 \<and>
        b_popping (fst (riseBubble M s t b j)) =
          (b_popping b \<or> b_age (fst (riseBubble M s t b j)) > b_maxAge b \<or>
           b_y (fst (riseBubble M s t b j)) < (- b_radius b) * 2 \<or>
           b_x (fst (riseBubble M s t b j)) < - b_radius b \<or>
           b_x (fst (riseBubble M s t b j)) > num (width s) + b_radius b \<or>
           (t > 0.7 \<and> random M (j + 1) > 0.95)))"
proof -
  obtain bs' k' where ue: "update_each M s t bs k = (bs', k')" by (cases "update_each M s t bs k")
  have len: "length bs' = length bs" using length_update_each [of M s t bs k] by (simp add: ue)
  have pass: "updateBubbles M s t (length bs) bs k = (filter (\<lambda>b. \<not> b_popProgress b \<ge> 1) bs', k')"
    using updateBubbles_prefix [OF assms, of M s t "[]" k] by (simp add: ue)
  have each: "if b_popping (bs ! i)
        then bs' ! i = (bs ! i)\<lparr>b_popProgress := b_popProgress (bs ! i) + (0.1 + t * 0.1)\<rparr>
        else (\<exists>j. bs' ! i = fst (riseBubble M s t (bs ! i) j)) \<and> b_popProgress (bs' ! i) = 0 \<and>
             (b_age (bs ! i) > b_maxAge (bs ! i) \<longrightarrow> b_popping (bs' ! i))"
    if i: "i < length bs" for i
  proof -
    from update_each_nth [OF i, of M s t k]
    obtain j where j: "bs' ! i = fst (updateBubble M s t (bs ! i) j)" by (auto simp: ue)
    show ?thesis
    proof (cases "b_popping (bs ! i)")
      case True
      then show ?thesis using j by (simp add: updateBubble_def)
    next
      case False
      then have r: "bs' ! i = fst (riseBubble M s t (bs ! i) j)" using j by (simp add: updateBubble_def)
      have "bs ! i \<in> set bs" using i by simp
      with assms False have "b_popProgress (bs ! i) = 0" by blast
      then have "b_popProgress (bs' ! i) = 0" by (simp add: r riseBubble_popProgress)
      moreover have "b_age (bs ! i) > b_maxAge (bs ! i) \<longrightarrow> b_popping (bs' ! i)"
        by (simp add: r overaged_pops)
      ultimately show ?thesis using False r by auto
    qed
  qed
  have rise: "\<forall>b j. b_age (fst (riseBubble M s t b j)) = b_age b + 1 \<and>
        b_popping (fst (riseBubble M s t b j)) =
          (b_popping b \<or> b_age (fst (riseBubble M s t b j)) > b_maxAge b \<or>
           b_y (fst (riseBubble M s t b j)) < (- b_radius b) * 2 \<or>
           b_x (fst (riseBubble M s t b j)) < - b_radius b \<or>
           b_x (fst (riseBubble M s t b j)) > num (width s) + b_radius b \<or>
           (t > 0.7 \<and> random M (j + 1) > 0.95))"
    using riseBubble_facts(1,4) by blast
  show ?thesis
    apply (rule exI [of _ bs'], rule exI [of _ k'])
    apply (intro conjI)
        apply (rule ue)
       apply (rule len)
      apply (rule pass)
    using each apply blast
    apply (rule rise)
    done
qed

text \<open>C6, witness: the example pool on a surface of 800 by 600, treble intensity \<open>0.5\<close>.\<close>

theorem bubble_lifecycle_witness:
  "\<exists>bs' k'. update_each example_Math example_surface 0.5 example_pool 0 = (bs', k') \<and>
     length bs' = length example_pool \<and>
     updateBubbles example_Math example_surface 0.5 (length example_pool) example_pool 0 =
       (filter (\<lambda>b. \<not> b_popProgress b \<ge> 1) bs', k') \<and>
     (\<forall>i<length example_pool.
        if b_popping (example_pool ! i)
        then bs' ! i = (example_pool ! i)\<lparr>b_popProgress :=
               b_popProgress (example_pool ! i) + (0.1 + 0.5 * 0.1)\<rparr>
        else (\<exists>j. bs' ! i = fst (riseBubble example_Math example_surface 0.5 (example_pool ! i) j)) \<and>
             b_popProgress (bs' ! i) = 0 \<and>
             (b_age (example_pool ! i) > b_maxAge (example_pool ! i) \<longrightarrow> b_popping (bs' ! i))) \<and>
     (\<forall>b j. b_age (fst (riseBubble example_Math example_surface 0.5 b j)) = b_age b + 1 \<and>
        b_popping (fst (riseBubble example_Math example_surface 0.5 b j)) =
          (b_popping b \<or> b_age (fst (riseBubble example_Math example_surface 0.5 b j)) > b_maxAge b \<or>
           b_y (fst (riseBubble example_Math example_surface 0.5 b j)) < (- b_radius b) * 2 \<or>
           b_x (fst (riseBubble example_Math example_surface 0.5 b j)) < - b_radius b \<or>
           b_x (fst (riseBubble example_Math example_surface 0.5 b j)) > num (width example_surface) + b_radius b \<or>
           ((0.5::number) > 0.7 \<and> random example_Math (j + 1) > 0.95)))"
proof -
  have inv: "\<forall>b\<in>set example_pool. \<not> b_popping b \<longrightarrow> b_popProgress b = 0"
    by (simp add: example_pool_def example_bubble_def)
  show ?thesis
    by (rule bubble_lifecycle [OF inv])
qed

section \<open>The bubble pass as update and delete\<close>

text \<open>
  C10. The pass runs from the last index down to \<open>0\<close> and removes a finished bubble by
  \<open>splice\<close> at the current index. On a pool in which every rising bubble has the pop
  progress \<open>0\<close>, as in every pool the engine builds, its result is the result of updating
  each bubble on its own, once, and then deleting exactly those whose pop progress has
  reached \<open>1\<close>: no entry is skipped and none is visited twice.
\<close>

theorem bubble_pass_refines:
  assumes "\<forall>b\<in>set bs. \<not> b_popping b \<longrightarrow> b_popProgress b = 0"
  shows "updateBubbles M s t (length bs) bs k = update_then_delete M s t bs k \<and>
         length (fst (update_each M s t bs k)) = length bs \<and>
         (\<forall>i<length bs. \<exists>j. fst (update_each M s t bs k) ! i = fst (updateBubble M s t (bs ! i) j))"
  using updateBubbles_prefix [OF assms, of M s t "[]" k] update_each_nth [of _ bs M s t k]
  by (simp add: update_then_delete_def case_prod_beta length_update_each)

text \<open>
  C10, witness: on the example pool the pass leaves three bubbles: the first one now
  popping, the second one removed, the third one at pop progress \<open>0.35\<close>, the last one
  risen by one step; two random numbers were drawn.
\<close>

theorem bubble_pass_refines_witness:
  "updateBubbles example_Math example_surface 0.5 (length example_pool) example_pool 0 =
     update_then_delete example_Math example_surface 0.5 example_pool 0 \<and>
   length (fst (update_each example_Math example_surface 0.5 example_pool 0)) = length example_pool \<and>
   update_then_delete example_Math example_surface 0.5 example_pool 0 =
     ([example_bubble\<lparr>b_age := 302, b_vy := Fin (- (9999 / 10000)), b_y := Fin (990001 / 10000),
                      b_popping := True\<rparr>,
       example_bubble\<lparr>b_popping := True, b_popProgress := 0.35\<rparr>,
       example_bubble\<lparr>b_age := 1, b_vy := Fin (- (9999 / 10000)), b_y := Fin (990001 / 10000)\<rparr>], 2)"
proof -
  have inv: "\<forall>b\<in>set example_pool. \<not> b_popping b \<longrightarrow> b_popProgress b = 0"
    by (simp add: example_pool_def example_bubble_def)
  note c = bubble_pass_refines [OF inv, where M = example_Math and s = example_surface
      and t = "0.5" and k = 0]
  have v: "update_then_delete example_Math example_surface 0.5 example_pool 0 =
     ([example_bubble\<lparr>b_age := 302, b_vy := Fin (- (9999 / 10000)), b_y := Fin (990001 / 10000),
                      b_popping := True\<rparr>,
       example_bubble\<lparr>b_popping := True, b_popProgress := 0.35\<rparr>,
       example_bubble\<lparr>b_age := 1, b_vy := Fin (- (9999 / 10000)), b_y := Fin (990001 / 10000)\<rparr>], 2)"
    by code_simp
  show ?thesis
    by (intro conjI) (rule conjunct1 [OF c], rule conjunct1 [OF conjunct2 [OF c]], rule v)
qed

end
